theory Spec2Isabelle
  imports Complex_Main "HOL-Library.AList" "HOL-Library.Log_Nat"
begin

section \<open>Values, errors and the transport\<close>

text \<open>
  Python values that flow through \<^verbatim>\<open>multiPointSparse.py\<close>: the functionals returned by the user
  callbacks, their sensitivities and the failure flag. A Python \<^verbatim>\<open>float\<close> is an IEEE double and
  is kept as the rational number it denotes; a \<^verbatim>\<open>complex\<close> is a pair of doubles; a numpy array
  is the list of its entries (a 2-d array is an array of rows); a \<^verbatim>\<open>dict\<close> is an association
  list in insertion order with distinct keys.
\<close>

datatype pyval =
    PyNone
  | PyBool bool
  | PyInt int
  | PyFloat rat
  | PyComplex rat rat
  | PyArray "pyval list"
  | PyDict "(string \<times> pyval) list"

type_synonym pydict = "(string \<times> pyval) list"

text \<open>
  Every \<^verbatim>\<open>raise\<close>, failed \<^verbatim>\<open>assert\<close> and run-time error of the interpreter is a value.
  \<open>MPError\<close> carries the message handed to the constructor of the class \<^verbatim>\<open>MPError\<close>;
  \<open>AssertionError\<close> carries the message of the failed assertion. \<open>CollectiveError\<close> is a
  collective call that cannot complete because the process it waits for has raised.
  \<open>Unmodelled\<close> is not an error of the program: it marks an input on which this theory does
  not say what the program does (an infinite or undefined float, numpy broadcasting of
  arrays of different shapes).
\<close>

datatype error =
    MPError string
  | AssertionError string
  | UnboundLocalError string
  | KeyError string
  | TypeError string
  | IndexError string
  | ValueError string
  | AttributeError string
  | CollectiveError string
  | Unmodelled string

text \<open>
  A communicator as this process sees it, and the collective calls the process performs,
  in order. \<open>Split c\<close> is \<^verbatim>\<open>comm.Split(c)\<close>, \<open>Bcast r\<close> a broadcast with root \<open>r\<close>.
\<close>

record intracomm =
  comm_rank :: nat
  comm_size :: nat

datatype coll = Split nat | Barrier | Allgather | Bcast nat | Allreduce

text \<open>
  \<^verbatim>\<open>comm.Split(color)\<close> with the default key: the processes that pass the same colour form
  the new communicator, ordered by their rank in the old one. \<open>colour r\<close> is the colour
  that rank \<open>r\<close> of the old communicator passes (\<open>None\<close> when it never reaches the call).
\<close>

definition Split_rank :: "(nat \<Rightarrow> nat option) \<Rightarrow> nat \<Rightarrow> nat" where
  "Split_rank colour r = length (filter (\<lambda>r'. colour r' = colour r) [0..<r])"

definition Split_size :: "(nat \<Rightarrow> nat option) \<Rightarrow> nat \<Rightarrow> nat \<Rightarrow> nat" where
  "Split_size colour n r = length (filter (\<lambda>r'. colour r' = colour r) [0..<n])"

definition Split_comm :: "(nat \<Rightarrow> nat option) \<Rightarrow> intracomm \<Rightarrow> intracomm" where
  "Split_comm colour c =
     \<lparr>comm_rank = Split_rank colour (comm_rank c),
      comm_size = Split_size colour (comm_size c) (comm_rank c)\<rparr>"

text \<open>The conversion \<^verbatim>\<open>%d\<close> of a count.\<close>

fun show_nat :: "nat \<Rightarrow> string" where
  "show_nat n =
     (if n < 10 then [char_of (48 + n)]
      else show_nat (n div 10) @ [char_of (48 + n mod 10)])"

declare show_nat.simps [simp del]

section \<open>Cumulative sizes and interval membership\<close>

text \<open>
  The cumulative size array, as all three splitting routines build it:
  \<^verbatim>\<open>cum = zeros(n+1); for i in range(n): cum[i+1] = cum[i] + sizes[i]\<close>.
\<close>

definition cumulative :: "nat \<Rightarrow> nat list \<Rightarrow> nat list" where
  "cumulative n sizes =
     fold (\<lambda>i c. c[i + 1 := c ! i + sizes ! i]) [0..<n] (replicate (n + 1) 0)"

text \<open>
  The search for the member key, as \<^verbatim>\<open>createGroups\<close> and \<^verbatim>\<open>procSet.createCommunicators\<close>
  write it: every index is tried, and the last index whose interval holds the rank wins.
  \<open>None\<close> is the variable left unbound (or left at \<^verbatim>\<open>None\<close>).
\<close>

definition member_key_loop :: "nat \<Rightarrow> nat list \<Rightarrow> nat \<Rightarrow> nat option" where
  "member_key_loop n cum r =
     fold (\<lambda>i mk. if cum ! i \<le> r \<and> r < cum ! (i + 1) then Some i else mk) [0..<n] None"

section \<open>createGroups\<close>



section \<open>The class procSet\<close>

type_synonym objCallback = "pyval \<Rightarrow> pydict option"
type_synonym sensCallback = "pyval \<Rightarrow> pyval \<Rightarrow> pydict \<Rightarrow> pydict option"

record procSet =
  setName :: string
  nMembers :: nat
  memberSizes :: "nat list"
  nProc :: nat
  set_gcomm :: "intracomm option"
  objFunc :: "objCallback list"
  sensFunc :: "sensCallback list"
  cumGroups :: "nat list option"
  groupID :: "nat option"
  groupFlags :: "bool list option"
  member_comm :: "intracomm option"
  setID :: nat

text \<open>\<^verbatim>\<open>procSet.__init__\<close>\<close>

definition new_procSet :: "string \<Rightarrow> nat \<Rightarrow> nat list \<Rightarrow> nat \<Rightarrow> procSet" where
  "new_procSet name n sizes sid =
     \<lparr>setName = name, nMembers = n, memberSizes = sizes, nProc = sum_list sizes,
      set_gcomm = None, objFunc = [], sensFunc = [], cumGroups = None, groupID = None,
      groupFlags = None, member_comm = None, setID = sid\<rparr>"

text \<open>
  \<^verbatim>\<open>procSet.createCommunicators\<close>, run on the communicator \<open>g\<close> of the set. Reading
  \<^verbatim>\<open>memberSizes[i]\<close> beyond the array raises; \<^verbatim>\<open>Split(None)\<close> raises. The result is the
  updated object and the colour passed to \<^verbatim>\<open>Split\<close>.
\<close>

definition procSet_createCommunicators :: "procSet \<Rightarrow> intracomm \<Rightarrow> error + procSet \<times> nat" where
  "procSet_createCommunicators self g =
     (if length (memberSizes self) < nMembers self then Inl (IndexError ''memberSizes'')
      else
        let cum = cumulative (nMembers self) (memberSizes self) in
        (case member_key_loop (nMembers self) cum (comm_rank g) of
           None \<Rightarrow> Inl (TypeError ''Split'')
         | Some m_key \<Rightarrow>
             Inr (self\<lparr>member_comm := Some (Split_comm (member_key_loop (nMembers self) cum) g),
                       groupFlags := Some ((replicate (nMembers self) False)[m_key := True]),
                       groupID := Some m_key,
                       cumGroups := Some cum\<rparr>, m_key)))"

section \<open>The class multiPointSparse\<close>

text \<open>
  What the class reads of the optimization problem: for each constraint whether it is linear,
  the design-variable sets it depends on and its number of rows; the names of the
  design-variable sets; and \<^verbatim>\<open>dvOffset[dvSet]['n']\<close>, the pair of offsets of each set.
\<close>

record constraint =
  linear :: bool
  wrt :: "string list"
  ncon :: nat

record optProblem =
  constraints :: "(string \<times> constraint) list"
  variables :: "string list"
  dvOffset :: "(string \<times> int \<times> int) list"

text \<open>
  The object. A field that \<^verbatim>\<open>__init__\<close> sets to \<^verbatim>\<open>None\<close> is an option. \<open>pSet\<close> is the
  \<^verbatim>\<open>OrderedDict\<close>; Python sets are lists without repetition. \<open>funcs\<close> is a reference: the
  address in \<open>heap\<close> of the dictionary that \<^verbatim>\<open>self.funcs\<close> points to. \<open>trace\<close> lists the
  collective calls this process has made on its communicators.
\<close>

record multiPointSparse =
  gcomm :: intracomm
  pSet :: "(string \<times> procSet) list"
  dummyPSet :: "string list"
  pSetRoot :: "(string \<times> nat) list option"
  setFlags :: "(string \<times> bool) list option"
  optProb :: "optProblem option"
  commPattern :: "(string \<times> nat) list option"
  userObjCon :: "(pydict \<Rightarrow> error + pyval \<times> pydict) option"
  conKeys :: "string list option"
  funcs :: "nat option"
  inputKeys :: "string list option"
  outputKeys :: "string list option"
  passThroughKeys :: "string list option"
  heap :: "pydict list"
  trace :: "coll list"

text \<open>\<^verbatim>\<open>multiPointSparse.__init__\<close>\<close>

definition new_multiPointSparse :: "intracomm \<Rightarrow> multiPointSparse" where
  "new_multiPointSparse g =
     \<lparr>gcomm = g, pSet = [], dummyPSet = [], pSetRoot = None, setFlags = None,
      optProb = None, commPattern = None, userObjCon = None, conKeys = None, funcs = None,
      inputKeys = None, outputKeys = None, passThroughKeys = None, heap = [], trace = []\<rparr>"

subsection \<open>addProcessorSet\<close>

text \<open>
  \<^verbatim>\<open>memberSizes\<close> is an integer or a sequence; \<^verbatim>\<open>numpy.atleast_1d\<close> makes an integer a
  sequence of length one.
\<close>

datatype sizes_arg = Scalar nat | Seq "nat list"

fun atleast_1d :: "sizes_arg \<Rightarrow> nat list" where
  "atleast_1d (Scalar s) = [s]"
| "atleast_1d (Seq xs) = xs"

definition memberSizes_message :: string where
  "memberSizes_message = ''The suppliled memberSizes list is not      the correct length.''"

text \<open>
  A method returns its result, or the error it raised, together with the object as the
  call leaves it.
\<close>

definition addProcessorSet ::
  "string \<Rightarrow> nat \<Rightarrow> sizes_arg \<Rightarrow> multiPointSparse \<Rightarrow> (error + unit) \<times> multiPointSparse" where
  "addProcessorSet name n sizes self =
     (if n = 0 then (Inr (), self\<lparr>dummyPSet := List.insert name (dummyPSet self)\<rparr>)
      else
        let ms = atleast_1d sizes in
        if length ms = 1 then
          (Inr (), self\<lparr>pSet := AList.update name
             (new_procSet name n (replicate n (ms ! 0)) (length (pSet self))) (pSet self)\<rparr>)
        else if length ms \<noteq> n then (Inl (MPError memberSizes_message), self)
        else
          (Inr (), self\<lparr>pSet := AList.update name
             (new_procSet name n ms (length (pSet self))) (pSet self)\<rparr>))"

text \<open>The calls of a set-up script, one after the other; the first error ends the script.\<close>

fun addProcessorSets ::
  "(string \<times> nat \<times> sizes_arg) list \<Rightarrow> multiPointSparse \<Rightarrow> (error + unit) \<times> multiPointSparse" where
  "addProcessorSets [] self = (Inr (), self)"
| "addProcessorSets ((name, n, sizes) # specs) self =
     (case addProcessorSet name n sizes self of
        (Inl e, self') \<Rightarrow> (Inl e, self')
      | (Inr u, self') \<Rightarrow> addProcessorSets specs self')"

subsection \<open>createCommunicators\<close>

definition createCommunicators_message :: "nat \<Rightarrow> string" where
  "createCommunicators_message n =
     ''multiPointSparse must be called with EXACTLY '' @ show_nat n @ '' processors.''"

text \<open>The first loop: the total number of required processors.\<close>

definition required_procs :: "(string \<times> procSet) list \<Rightarrow> nat" where
  "required_procs ps = fold (\<lambda>(key, p) n. n + nProc p) ps 0"

text \<open>\<^verbatim>\<open>setSizes[self.pSet[setName].setID] = self.pSet[setName].nProc\<close>\<close>

definition set_sizes :: "(string \<times> procSet) list \<Rightarrow> nat list" where
  "set_sizes ps = fold (\<lambda>(key, p) s. s[setID p := nProc p]) ps (replicate (length ps) 0)"

text \<open>
  The loop that determines \<^verbatim>\<open>memberKey\<close> and \<^verbatim>\<open>setFlags\<close> for the process of rank \<open>r\<close>.
\<close>

definition set_key_loop ::
  "(string \<times> procSet) list \<Rightarrow> nat list \<Rightarrow> nat \<Rightarrow> nat option \<times> (string \<times> bool) list" where
  "set_key_loop ps cumSets r =
     fold (\<lambda>(key, p) (memberKey, flags).
             if cumSets ! setID p \<le> r \<and> r < cumSets ! (setID p + 1)
             then (Some (setID p), AList.update (setName p) True flags)
             else (memberKey, AList.update (setName p) False flags))
       ps (None, [])"

text \<open>
  The loop over the sets whose flag is true. The locals \<^verbatim>\<open>comm\<close>, \<^verbatim>\<open>groupFlags\<close> and
  \<^verbatim>\<open>ptID\<close> are bound once a flagged set has been met.
\<close>

type_synonym member_locals = "(intracomm option \<times> bool list option \<times> nat option) option"

fun set_comm_loop ::
  "string list \<Rightarrow> (string \<times> bool) list \<Rightarrow> intracomm \<Rightarrow> member_locals \<Rightarrow> multiPointSparse \<Rightarrow>
   (error + member_locals) \<times> multiPointSparse" where
  "set_comm_loop [] flags setComm loc self = (Inr loc, self)"
| "set_comm_loop (key # keys) flags setComm loc self =
     (case map_of flags key of
        None \<Rightarrow> (Inl (KeyError key), self)
      | Some False \<Rightarrow> set_comm_loop keys flags setComm loc self
      | Some True \<Rightarrow>
          (case map_of (pSet self) key of
             None \<Rightarrow> (Inl (KeyError key), self)
           | Some p \<Rightarrow>
               let p1 = p\<lparr>set_gcomm := Some setComm\<rparr> in
               (case procSet_createCommunicators p1 setComm of
                  Inl e \<Rightarrow> (Inl e, self\<lparr>pSet := AList.update key p1 (pSet self)\<rparr>)
                | Inr (p2, m_key) \<Rightarrow>
                    set_comm_loop keys flags setComm
                      (Some (member_comm p2, groupFlags p2, groupID p2))
                      (self\<lparr>pSet := AList.update key p2 (pSet self),
                            trace := trace self @ [Split m_key, Barrier]\<rparr>))))"

text \<open>
  \<^verbatim>\<open>multiPointSparse.createCommunicators\<close>. It returns
  \<^verbatim>\<open>comm, setComm, setFlags, groupFlags, ptID\<close>; the returned \<^verbatim>\<open>setFlags\<close> is the dictionary
  that \<^verbatim>\<open>self.setFlags\<close> refers to, so it holds the entries of the dummy sets too.
\<close>

definition createCommunicators ::
  "multiPointSparse \<Rightarrow>
   (error + intracomm \<times> intracomm \<times> (string \<times> bool) list \<times> bool list \<times> nat) \<times> multiPointSparse" where
  "createCommunicators self =
     (let nProc_req = required_procs (pSet self);
          g = gcomm self
      in if nProc_req < comm_size g \<or> nProc_req > comm_size g
         then (Inl (MPError (createCommunicators_message nProc_req)), self)
         else if list_ex (\<lambda>(key, p). length (pSet self) \<le> setID p) (pSet self)
         then (Inl (IndexError ''setSizes''), self)
         else
           let setCount = length (pSet self);
               cumSets = cumulative setCount (set_sizes (pSet self));
               (memberKey, flags) = set_key_loop (pSet self) cumSets (comm_rank g)
           in (case memberKey of
                 None \<Rightarrow> (Inl (UnboundLocalError ''memberKey''), self)
               | Some mk \<Rightarrow>
                   let setComm = Split_comm (\<lambda>r. fst (set_key_loop (pSet self) cumSets r)) g;
                       self1 = self\<lparr>trace := trace self @ [Split mk]\<rparr>
                   in (case set_comm_loop (map fst (pSet self)) flags setComm None self1 of
                         (Inl e, self2) \<Rightarrow> (Inl e, self2)
                       | (Inr loc, self2) \<Rightarrow>
                           let flags' = fold (\<lambda>key fl. AList.update key False fl)
                                          (dummyPSet self2) flags;
                               roots = fold (\<lambda>(key, p) rt.
                                          AList.update key (cumSets ! setID p) rt) (pSet self2) [];
                               self3 = self2\<lparr>setFlags := Some flags', pSetRoot := Some roots\<rparr>
                           in (case loc of
                                 Some (Some comm, Some gf, Some ptID) \<Rightarrow>
                                   (Inr (comm, setComm, flags', gf, ptID), self3)
                               | _ \<Rightarrow> (Inl (UnboundLocalError ''comm''), self3)))))"

subsection \<open>Well-formed processor sets\<close>

text \<open>
  What \<^verbatim>\<open>addProcessorSet\<close> establishes when the set names are distinct: the keys of
  \<^verbatim>\<open>pSet\<close> are distinct, the \<^verbatim>\<open>setID\<close> of an entry is its position, its name is its key,
  it has one size for each member and \<^verbatim>\<open>nProc\<close> is their sum.
\<close>

definition wf_pSet :: "(string \<times> procSet) list \<Rightarrow> bool" where
  "wf_pSet ps \<longleftrightarrow>
     distinct (map fst ps) \<and> map (\<lambda>kp. setID (snd kp)) ps = [0..<length ps] \<and>
     list_all (\<lambda>kp. setName (snd kp) = fst kp \<and> length (memberSizes (snd kp)) = nMembers (snd kp)
                 \<and> nProc (snd kp) = sum_list (memberSizes (snd kp))) ps"

subsection \<open>Registering the callbacks and the optimization problem\<close>

text \<open>
  \<^verbatim>\<open>setProcSetObjFunc\<close>, \<^verbatim>\<open>setProcSetSensFunc\<close>, \<^verbatim>\<open>addProcSetObjFunc\<close>,
  \<^verbatim>\<open>addProcSetSensFunc\<close> and \<^verbatim>\<open>setObjCon\<close>. The argument is a function by its type, so
  the check \<^verbatim>\<open>isinstance(func, types.FunctionType)\<close> passes.
\<close>

definition setName_message :: string where
  "setName_message = [CHR 0x27] @ ''setName'' @ [CHR 0x27] @
     '' has not been added with addProcessorSet.''"

definition setProcSetObjFunc ::
  "string \<Rightarrow> objCallback \<Rightarrow> multiPointSparse \<Rightarrow> (error + unit) \<times> multiPointSparse" where
  "setProcSetObjFunc name func self =
     (case map_of (pSet self) name of
        None \<Rightarrow> (Inl (MPError setName_message), self)
      | Some p \<Rightarrow> (Inr (), self\<lparr>pSet := AList.update name (p\<lparr>objFunc := [func]\<rparr>) (pSet self)\<rparr>))"

definition setProcSetSensFunc ::
  "string \<Rightarrow> sensCallback \<Rightarrow> multiPointSparse \<Rightarrow> (error + unit) \<times> multiPointSparse" where
  "setProcSetSensFunc name func self =
     (case map_of (pSet self) name of
        None \<Rightarrow> (Inl (MPError setName_message), self)
      | Some p \<Rightarrow> (Inr (), self\<lparr>pSet := AList.update name (p\<lparr>sensFunc := [func]\<rparr>) (pSet self)\<rparr>))"

definition addProcSetObjFunc ::
  "string \<Rightarrow> objCallback \<Rightarrow> multiPointSparse \<Rightarrow> (error + unit) \<times> multiPointSparse" where
  "addProcSetObjFunc name func self =
     (case map_of (pSet self) name of
        None \<Rightarrow> (Inl (MPError setName_message), self)
      | Some p \<Rightarrow>
          (Inr (), self\<lparr>pSet := AList.update name (p\<lparr>objFunc := objFunc p @ [func]\<rparr>) (pSet self)\<rparr>))"

definition addProcSetSensFunc ::
  "string \<Rightarrow> sensCallback \<Rightarrow> multiPointSparse \<Rightarrow> (error + unit) \<times> multiPointSparse" where
  "addProcSetSensFunc name func self =
     (case map_of (pSet self) name of
        None \<Rightarrow> (Inl (MPError setName_message), self)
      | Some p \<Rightarrow>
          (Inr (), self\<lparr>pSet := AList.update name (p\<lparr>sensFunc := sensFunc p @ [func]\<rparr>) (pSet self)\<rparr>))"

definition setObjCon ::
  "(pydict \<Rightarrow> error + pyval \<times> pydict) \<Rightarrow> multiPointSparse \<Rightarrow> multiPointSparse" where
  "setObjCon func self = self\<lparr>userObjCon := Some func\<rparr>"

text \<open>\<^verbatim>\<open>setOptProb\<close>: the names of the constraints that are not linear.\<close>

definition setOptProb :: "optProblem \<Rightarrow> multiPointSparse \<Rightarrow> multiPointSparse" where
  "setOptProb op self =
     self\<lparr>optProb := Some op,
          conKeys := Some (map fst (filter (\<lambda>(iCon, c). \<not> linear c) (constraints op))),
          funcs := None, inputKeys := None, outputKeys := None, passThroughKeys := None\<rparr>"

subsection \<open>The local result of a process\<close>

text \<open>\<^verbatim>\<open>res.update(tmp)\<close>\<close>

definition dict_update :: "pydict \<Rightarrow> pydict \<Rightarrow> pydict" where
  "dict_update res tmp = fold (\<lambda>(k, v) d. AList.update k v d) tmp res"

definition obj_message :: "string \<Rightarrow> string" where
  "obj_message key =
     ''No return from user supplied                Objective function for pSet '' @ key @
     ''. Functionals must be returned in a                          dictionary.''"

definition sens_message :: "string \<Rightarrow> string" where
  "sens_message key =
     ''No return from user supplied Sensitivity function for pSet '' @ key @
     ''. Functional derivatives must be returned in a dictionary.''"

text \<open>
  The loop over the callbacks of one set; \<open>None\<close> is a callback that returned \<^verbatim>\<open>None\<close>, on
  which the assertion fails.
\<close>

fun call_funcs :: "string \<Rightarrow> pydict option list \<Rightarrow> pydict \<Rightarrow> error + pydict" where
  "call_funcs msg [] res = Inr res"
| "call_funcs msg (None # tmps) res = Inl (AssertionError msg)"
| "call_funcs msg (Some tmp # tmps) res = call_funcs msg tmps (dict_update res tmp)"

text \<open>
  The loop over \<^verbatim>\<open>self.pSet\<close> that opens \<^verbatim>\<open>obj\<close> and \<^verbatim>\<open>sens\<close>. \<open>run p\<close> is what the
  callbacks of the set \<open>p\<close> return. The result is the local variable \<^verbatim>\<open>res\<close>, \<open>None\<close> when
  no set of the process is active and the variable is never bound.
\<close>

fun local_results ::
  "(string \<times> procSet) list \<Rightarrow> (string \<times> bool) list option \<Rightarrow> (procSet \<Rightarrow> pydict option list) \<Rightarrow>
   (string \<Rightarrow> string) \<Rightarrow> pydict option \<Rightarrow> error + pydict option" where
  "local_results [] flags run msg res = Inr res"
| "local_results ((key, p) # ps) flags run msg res =
     (case flags of
        None \<Rightarrow> Inl (TypeError ''setFlags'')
      | Some fl \<Rightarrow>
          (case map_of fl key of
             None \<Rightarrow> Inl (KeyError key)
           | Some False \<Rightarrow> local_results ps flags run msg res
           | Some True \<Rightarrow>
               (case call_funcs (msg key) (run p) [] of
                  Inl e \<Rightarrow> Inl e
                | Inr r \<Rightarrow>
                    local_results ps flags run msg
                      (Some (if ''fail'' \<in> set (map fst r) then r
                             else AList.update ''fail'' (PyBool False) r)))))"

subsection \<open>The communication pattern and the collectives\<close>

text \<open>
  The collectives need what the other processes contribute. \<open>peers\<close> lists, by rank of the
  global communicator, the local result \<^verbatim>\<open>res\<close> of every process in the same call; the entry
  of the process itself is replaced by its own \<^verbatim>\<open>res\<close>.
\<close>

definition gathered :: "pydict list \<Rightarrow> nat \<Rightarrow> pydict \<Rightarrow> pydict list" where
  "gathered peers r res = peers[r := res]"

text \<open>
  The one-time pattern, from \<^verbatim>\<open>allKeys = self.gcomm.allgather(list(res.keys()))\<close>: the two
  nested loops over processors and over the keys of each processor.
\<close>

definition build_commPattern :: "string list list \<Rightarrow> (string \<times> nat) list" where
  "build_commPattern allKeys =
     fold (\<lambda>i cp. fold (\<lambda>key cp. if key \<notin> set (map fst cp)
                                   then (if key \<noteq> ''fail'' then AList.update key i cp else cp)
                                   else cp) (allKeys ! i) cp)
       [0..<length allKeys] []"

text \<open>
  The first-pass block of \<^verbatim>\<open>obj\<close>: when \<^verbatim>\<open>self.commPattern\<close> is \<^verbatim>\<open>None\<close> the keys are
  gathered and the pattern is built and stored; otherwise nothing is done.
\<close>

definition discover ::
  "pydict option \<Rightarrow> pydict list \<Rightarrow> multiPointSparse \<Rightarrow>
   (error + (string \<times> nat) list) \<times> multiPointSparse" where
  "discover res peers self =
     (case commPattern self of
        Some cp \<Rightarrow> (Inr cp, self)
      | None \<Rightarrow>
          (case res of
             None \<Rightarrow> (Inl (UnboundLocalError ''res''), self)
           | Some r \<Rightarrow>
               let allKeys = map (map fst) (gathered peers (comm_rank (gcomm self)) r);
                   cp = build_commPattern allKeys
               in (Inr cp, self\<lparr>commPattern := Some cp, trace := trace self @ [Allgather]\<rparr>)))"

text \<open>
  The broadcast loop over the pattern. The owner of a key sends \<^verbatim>\<open>res[key]\<close>; every other
  process receives what the owner sent. An owner whose \<^verbatim>\<open>res\<close> lacks the key raises before
  the broadcast, and the processes that wait for it never leave the call.
\<close>

fun communicate ::
  "(string \<times> nat) list \<Rightarrow> nat \<Rightarrow> pydict option \<Rightarrow> pydict list \<Rightarrow> pydict \<Rightarrow> coll list \<Rightarrow>
   (error + pydict) \<times> coll list" where
  "communicate [] r res peers acc tr = (Inr acc, tr)"
| "communicate ((key, owner) # cp) r res peers acc tr =
     (if owner = r then
        (case res of
           None \<Rightarrow> (Inl (UnboundLocalError ''res''), tr)
         | Some d \<Rightarrow>
             (case map_of d key of
                None \<Rightarrow> (Inl (KeyError key), tr)
              | Some v \<Rightarrow> communicate cp r res peers (AList.update key v acc) (tr @ [Bcast owner])))
      else if owner < length peers then
        (case map_of (peers ! owner) key of
           None \<Rightarrow> (Inl (CollectiveError key), tr @ [Bcast owner])
         | Some v \<Rightarrow> communicate cp r res peers (AList.update key v acc) (tr @ [Bcast owner]))
      else (Inl (CollectiveError key), tr @ [Bcast owner]))"

text \<open>The truth value of a Python scalar, and \<^verbatim>\<open>allreduce(res['fail'], op=MPI.LOR)\<close>.\<close>

fun truthy :: "pyval \<Rightarrow> bool" where
  "truthy PyNone = False"
| "truthy (PyBool b) = b"
| "truthy (PyInt i) = (i \<noteq> 0)"
| "truthy (PyFloat x) = (x \<noteq> 0)"
| "truthy (PyComplex a b) = (a \<noteq> 0 \<or> b \<noteq> 0)"
| "truthy (PyArray xs) = (xs \<noteq> [])"
| "truthy (PyDict d) = (d \<noteq> [])"

definition allreduce_LOR :: "pydict list \<Rightarrow> bool" where
  "allreduce_LOR ress =
     list_ex (\<lambda>d. case map_of d ''fail'' of None \<Rightarrow> False | Some v \<Rightarrow> truthy v) ress"

text \<open>\<^verbatim>\<open>_extractKeys\<close>: a new dictionary with deep copies of the entries of the given keys.\<close>

fun extractKeys :: "pydict \<Rightarrow> string list \<Rightarrow> pydict \<Rightarrow> error + pydict" where
  "extractKeys d [] newDict = Inr newDict"
| "extractKeys d (key # keys) newDict =
     (case map_of d key of
        None \<Rightarrow> Inl (KeyError key)
      | Some v \<Rightarrow> extractKeys d keys (AList.update key v newDict))"

subsection \<open>obj\<close>

text \<open>
  \<^verbatim>\<open>multiPointSparse.obj\<close>. \<open>x\<close> is the dictionary of design variables. The three closing
  broadcasts from rank 0 hand every process the values of rank 0, which has computed them
  from the same unified functionals with the same combination function.
\<close>

definition obj ::
  "pyval \<Rightarrow> pydict list \<Rightarrow> multiPointSparse \<Rightarrow>
   (error + pyval \<times> pydict \<times> bool) \<times> multiPointSparse" where
  "obj x peers self =
     (case local_results (pSet self) (setFlags self) (\<lambda>p. map (\<lambda>func. func x) (objFunc p))
             obj_message None of
        Inl e \<Rightarrow> (Inl e, self)
      | Inr res \<Rightarrow>
          (case discover res peers self of
             (Inl e, self1) \<Rightarrow> (Inl e, self1)
           | (Inr cp, self1) \<Rightarrow>
               (case communicate cp (comm_rank (gcomm self1)) res peers [] (trace self1) of
                  (Inl e, tr) \<Rightarrow> (Inl e, self1\<lparr>trace := tr\<rparr>)
                | (Inr allFuncs, tr) \<Rightarrow>
                    (case res of
                       None \<Rightarrow> (Inl (UnboundLocalError ''res''), self1\<lparr>trace := tr\<rparr>)
                     | Some r \<Rightarrow>
                         (case map_of r ''fail'' of
                            None \<Rightarrow> (Inl (KeyError ''fail''), self1\<lparr>trace := tr\<rparr>)
                          | Some fv \<Rightarrow>
                              let fail = allreduce_LOR (gathered peers (comm_rank (gcomm self1)) r);
                                  self2 = self1\<lparr>trace := tr @ [Allreduce],
                                                heap := heap self1 @ [allFuncs],
                                                funcs := Some (length (heap self1))\<rparr>;
                                  funckeys = map fst allFuncs
                              in (case conKeys self2 of
                                    None \<Rightarrow> (Inl (TypeError ''conKeys''), self2)
                                  | Some ck \<Rightarrow>
                                      let ik = filter (\<lambda>k. k \<notin> set ck) funckeys;
                                          self3 = self2\<lparr>inputKeys := Some ik,
                                             outputKeys := Some (filter (\<lambda>k. k \<notin> set funckeys) ck),
                                             passThroughKeys :=
                                               Some (filter (\<lambda>k. k \<in> set ck) funckeys)\<rparr>
                                      in (case extractKeys allFuncs ik [] of
                                            Inl e \<Rightarrow> (Inl e, self3)
                                          | Inr inputFuncs \<Rightarrow>
                                              (case userObjCon self3 of
                                                 None \<Rightarrow> (Inl (TypeError ''userObjCon''), self3)
                                               | Some f \<Rightarrow>
                                                   (case f inputFuncs of
                                                      Inl e \<Rightarrow> (Inl e, self3)
                                                    | Inr (fObj, fCon) \<Rightarrow>
                                                        (Inr (fObj, fCon, fail),
                                                         self3\<lparr>trace := trace self3 @
                                                            [Bcast 0, Bcast 0, Bcast 0]\<rparr>))))))))))"

section \<open>Numbers\<close>

text \<open>
  A Python \<^verbatim>\<open>float\<close> is an IEEE 754 binary64 number and is kept as the rational number it
  denotes. \<open>fl x\<close> is the double nearest to the rational \<open>x\<close>, ties to the even significand,
  with gradual underflow; the two zeros are not told apart. A result that rounds to
  \<open>2\<^sup>1\<^sup>0\<^sup>2\<^sup>4\<close> or beyond is an infinity, on which this theory says nothing.
\<close>

definition pow2 :: "int \<Rightarrow> rat" where
  "pow2 e = (if 0 \<le> e then 2 ^ nat e else 1 / 2 ^ nat (- e))"

text \<open>The exponent \<open>\<lfloor>log\<^sub>2 x\<rfloor>\<close> of a positive rational.\<close>

definition ilog2 :: "rat \<Rightarrow> int" where
  "ilog2 x = (case quotient_of x of (p, q) \<Rightarrow>
                let d = bitlen p - bitlen q in if pow2 d \<le> x then d else d - 1)"

definition round_even :: "rat \<Rightarrow> int" where
  "round_even y = (let n = \<lfloor>y\<rfloor>; r = y - of_int n
                   in if r < 1 / 2 then n else if 1 / 2 < r then n + 1
                      else if even n then n else n + 1)"

definition fl :: "rat \<Rightarrow> rat" where
  "fl x = (if x = 0 then 0
           else let e = max (ilog2 \<bar>x\<bar>) (- 1022); u = pow2 (e - 52)
                in sgn x * of_int (round_even (\<bar>x\<bar> / u)) * u)"

definition flo :: "rat \<Rightarrow> error + rat" where
  "flo x = (let y = fl x
            in if y \<noteq> 0 \<and> 1024 \<le> ilog2 \<bar>y\<bar> then Inl (Unmodelled ''inf'') else Inr y)"

text \<open>The literal \<^verbatim>\<open>1e-40\<close>.\<close>

definition step_h :: rat where
  "step_h = fl (1 / 10 ^ 40)"

text \<open>Sequencing of computations that may raise.\<close>

definition ebind :: "error + 'a \<Rightarrow> ('a \<Rightarrow> error + 'b) \<Rightarrow> error + 'b" where
  "ebind m f = (case m of Inl e \<Rightarrow> Inl e | Inr v \<Rightarrow> f v)"

fun sequence :: "(error + 'a) list \<Rightarrow> error + 'a list" where
  "sequence [] = Inr []"
| "sequence (m # ms) = ebind m (\<lambda>v. ebind (sequence ms) (\<lambda>vs. Inr (v # vs)))"

text \<open>\<^verbatim>\<open>numpy.isscalar\<close> on the values of this theory.\<close>

fun isscalar :: "pyval \<Rightarrow> bool" where
  "isscalar (PyBool b) = True"
| "isscalar (PyInt i) = True"
| "isscalar (PyFloat x) = True"
| "isscalar (PyComplex a b) = True"
| "isscalar v = False"

fun is_int :: "pyval \<Rightarrow> bool" where
  "is_int (PyBool b) = True"
| "is_int (PyInt i) = True"
| "is_int v = False"

fun int_of :: "pyval \<Rightarrow> int" where
  "int_of (PyBool b) = (if b then 1 else 0)"
| "int_of (PyInt i) = i"
| "int_of v = 0"

fun is_complex :: "pyval \<Rightarrow> bool" where
  "is_complex (PyComplex a b) = True"
| "is_complex v = False"

fun to_float :: "pyval \<Rightarrow> error + rat" where
  "to_float (PyBool b) = Inr (if b then 1 else 0)"
| "to_float (PyInt i) = flo (of_int i)"
| "to_float (PyFloat x) = Inr x"
| "to_float v = Inl (TypeError ''float'')"

fun to_complex :: "pyval \<Rightarrow> error + rat \<times> rat" where
  "to_complex (PyComplex a b) = Inr (a, b)"
| "to_complex v = ebind (to_float v) (\<lambda>x. Inr (x, 0))"

text \<open>
  \<^verbatim>\<open>a + b\<close>, \<^verbatim>\<open>a - b\<close> and \<^verbatim>\<open>a * b\<close> on Python scalars: integers stay integers, a complex
  operand makes the other complex, otherwise the operation is on floats. Every float
  operation rounds once; the complex product is
  \<^verbatim>\<open>(ar*br - ai*bi) + (ar*bi + ai*br)j\<close>.
\<close>

definition py_add :: "pyval \<Rightarrow> pyval \<Rightarrow> error + pyval" where
  "py_add a b =
     (if \<not> isscalar a \<or> \<not> isscalar b then Inl (Unmodelled ''add'')
      else if is_int a \<and> is_int b then Inr (PyInt (int_of a + int_of b))
      else if is_complex a \<or> is_complex b then
        ebind (to_complex a) (\<lambda>(ar, ai). ebind (to_complex b) (\<lambda>(br, bi).
        ebind (flo (ar + br)) (\<lambda>re. ebind (flo (ai + bi)) (\<lambda>im. Inr (PyComplex re im)))))
      else ebind (to_float a) (\<lambda>x. ebind (to_float b) (\<lambda>y.
           ebind (flo (x + y)) (\<lambda>z. Inr (PyFloat z)))))"

definition py_sub :: "pyval \<Rightarrow> pyval \<Rightarrow> error + pyval" where
  "py_sub a b =
     (if \<not> isscalar a \<or> \<not> isscalar b then Inl (Unmodelled ''sub'')
      else if is_int a \<and> is_int b then Inr (PyInt (int_of a - int_of b))
      else if is_complex a \<or> is_complex b then
        ebind (to_complex a) (\<lambda>(ar, ai). ebind (to_complex b) (\<lambda>(br, bi).
        ebind (flo (ar - br)) (\<lambda>re. ebind (flo (ai - bi)) (\<lambda>im. Inr (PyComplex re im)))))
      else ebind (to_float a) (\<lambda>x. ebind (to_float b) (\<lambda>y.
           ebind (flo (x - y)) (\<lambda>z. Inr (PyFloat z)))))"

definition py_mul :: "pyval \<Rightarrow> pyval \<Rightarrow> error + pyval" where
  "py_mul a b =
     (if \<not> isscalar a \<or> \<not> isscalar b then Inl (Unmodelled ''mul'')
      else if is_int a \<and> is_int b then Inr (PyInt (int_of a * int_of b))
      else if is_complex a \<or> is_complex b then
        ebind (to_complex a) (\<lambda>(ar, ai). ebind (to_complex b) (\<lambda>(br, bi).
        ebind (flo (ar * br)) (\<lambda>p1. ebind (flo (ai * bi)) (\<lambda>p2.
        ebind (flo (ar * bi)) (\<lambda>p3. ebind (flo (ai * br)) (\<lambda>p4.
        ebind (flo (p1 - p2)) (\<lambda>re. ebind (flo (p3 + p4)) (\<lambda>im.
        Inr (PyComplex re im)))))))))
      else ebind (to_float a) (\<lambda>x. ebind (to_float b) (\<lambda>y.
           ebind (flo (x * y)) (\<lambda>z. Inr (PyFloat z)))))"

text \<open>
  \<^verbatim>\<open>numpy.array(v).astype('D')\<close>: every entry becomes complex. \<^verbatim>\<open>x += c\<close> and \<^verbatim>\<open>x -= c\<close>
  on an entry or a row of a complex array.
\<close>

fun astype_D :: "pyval \<Rightarrow> error + pyval" where
  "astype_D (PyArray xs) = ebind (sequence (map astype_D xs)) (\<lambda>ys. Inr (PyArray ys))"
| "astype_D PyNone = Inl (TypeError ''astype'')"
| "astype_D (PyDict d) = Inl (TypeError ''astype'')"
| "astype_D v = ebind (to_complex v) (\<lambda>(a, b). Inr (PyComplex a b))"

fun array_iadd :: "pyval \<Rightarrow> pyval \<Rightarrow> error + pyval" where
  "array_iadd c (PyArray xs) = ebind (sequence (map (array_iadd c) xs)) (\<lambda>ys. Inr (PyArray ys))"
| "array_iadd c v = py_add v c"

fun array_isub :: "pyval \<Rightarrow> pyval \<Rightarrow> error + pyval" where
  "array_isub c (PyArray xs) = ebind (sequence (map (array_isub c) xs)) (\<lambda>ys. Inr (PyArray ys))"
| "array_isub c v = py_sub v c"

text \<open>\<^verbatim>\<open>numpy.imag(v)\<close> and \<^verbatim>\<open>v / 1e-40\<close> on what \<^verbatim>\<open>numpy.imag\<close> returns.\<close>

fun np_imag :: "pyval \<Rightarrow> error + pyval" where
  "np_imag (PyComplex a b) = Inr (PyFloat b)"
| "np_imag (PyBool b) = Inr (PyFloat 0)"
| "np_imag (PyInt i) = Inr (PyFloat 0)"
| "np_imag (PyFloat x) = Inr (PyFloat 0)"
| "np_imag (PyArray xs) = ebind (sequence (map np_imag xs)) (\<lambda>ys. Inr (PyArray ys))"
| "np_imag v = Inl (Unmodelled ''imag'')"

fun np_div_h :: "pyval \<Rightarrow> error + pyval" where
  "np_div_h (PyFloat x) = ebind (flo (x / step_h)) (\<lambda>y. Inr (PyFloat y))"
| "np_div_h (PyArray xs) = ebind (sequence (map np_div_h xs)) (\<lambda>ys. Inr (PyArray ys))"
| "np_div_h v = Inl (Unmodelled ''div'')"

text \<open>The derivative that the complex step extracts: \<^verbatim>\<open>numpy.imag(v)/1e-40\<close>.\<close>

definition cs_deriv :: "pyval \<Rightarrow> error + pyval" where
  "cs_deriv v = ebind (np_imag v) np_div_h"

section \<open>sens\<close>

subsection \<open>Arrays of floats\<close>

text \<open>
  A vector is a one-dimensional array of real numbers, a matrix an array of vectors of one
  length.
\<close>

definition real_vector :: "pyval \<Rightarrow> error + rat list" where
  "real_vector v = (case v of
       PyArray xs \<Rightarrow> if list_all (\<lambda>x. isscalar x \<and> \<not> is_complex x) xs
                      then sequence (map to_float xs) else Inl (Unmodelled ''vector'')
     | _ \<Rightarrow> Inl (Unmodelled ''vector''))"

definition real_matrix :: "pyval \<Rightarrow> error + rat list list" where
  "real_matrix v = (case v of
       PyArray rows \<Rightarrow> sequence (map real_vector rows)
     | _ \<Rightarrow> Inl (Unmodelled ''matrix''))"

definition vector_val :: "rat list \<Rightarrow> pyval" where
  "vector_val xs = PyArray (map PyFloat xs)"

definition matrix_val :: "rat list list \<Rightarrow> pyval" where
  "matrix_val rows = PyArray (map vector_val rows)"

text \<open>\<^verbatim>\<open>numpy.zeros(n)\<close> and \<^verbatim>\<open>numpy.zeros((m, n))\<close>\<close>

definition zeros1 :: "nat \<Rightarrow> pyval" where
  "zeros1 n = vector_val (replicate n 0)"

definition zeros2 :: "nat \<Rightarrow> nat \<Rightarrow> pyval" where
  "zeros2 m n = matrix_val (replicate m (replicate n 0))"

text \<open>\<^verbatim>\<open>g += d * s\<close> for a float \<open>d\<close> and vectors \<open>g\<close>, \<open>s\<close> of one length.\<close>

definition axpy :: "rat \<Rightarrow> rat list \<Rightarrow> rat list \<Rightarrow> error + rat list" where
  "axpy d s g =
     (if length s \<noteq> length g then Inl (Unmodelled ''broadcast'')
      else sequence (map (\<lambda>(sj, gj). ebind (flo (d * sj)) (\<lambda>p. flo (gj + p))) (zip s g)))"

text \<open>
  \<^verbatim>\<open>.reshape((ncon, 1))\<close> needs \<open>ncon\<close> entries in all; \<^verbatim>\<open>numpy.atleast_2d\<close> makes a number
  a 1 by 1 matrix and a vector a matrix of one row.
\<close>

fun flatten :: "pyval \<Rightarrow> error + rat list" where
  "flatten (PyArray xs) = ebind (sequence (map flatten xs)) (\<lambda>ys. Inr (concat ys))"
| "flatten (PyComplex a b) = Inl (Unmodelled ''complex'')"
| "flatten v = ebind (to_float v) (\<lambda>x. Inr [x])"

definition reshape_column :: "nat \<Rightarrow> pyval \<Rightarrow> error + rat list" where
  "reshape_column n v =
     ebind (flatten v) (\<lambda>xs. if length xs = n then Inr xs else Inl (ValueError ''reshape''))"

definition atleast_2d :: "pyval \<Rightarrow> error + rat list list" where
  "atleast_2d v =
     (if isscalar v \<and> \<not> is_complex v then ebind (to_float v) (\<lambda>x. Inr [[x]])
      else case real_vector v of
             Inr xs \<Rightarrow> Inr [xs]
           | Inl e \<Rightarrow> real_matrix v)"

text \<open>
  \<^verbatim>\<open>G += numpy.dot(col, M)\<close> for a column \<open>col\<close>, a matrix \<open>M\<close> of one row and a block \<open>G\<close>
  with a row for each entry of the column.
\<close>

definition add_outer :: "rat list \<Rightarrow> rat list list \<Rightarrow> rat list list \<Rightarrow> error + rat list list" where
  "add_outer col M G =
     (case M of
        [s] \<Rightarrow> if length G \<noteq> length col \<or> \<not> list_all (\<lambda>g. length g = length s) G
               then Inl (Unmodelled ''broadcast'')
               else sequence (map (\<lambda>(d, g). axpy d s g) (zip col G))
      | _ \<Rightarrow> Inl (ValueError ''dot''))"

subsection \<open>The blocks of zeros\<close>

text \<open>
  \<^verbatim>\<open>gcon[oKey] = {}\<close> and, for every \<^verbatim>\<open>dvSet\<close> in \<^verbatim>\<open>self.optProb.constraints[oKey].wrt\<close>,
  \<^verbatim>\<open>gcon[oKey][dvSet] = numpy.zeros((ncon, ndvs))\<close>.
\<close>

fun zero_block :: "optProblem \<Rightarrow> nat \<Rightarrow> string list \<Rightarrow> pydict \<Rightarrow> error + pydict" where
  "zero_block op n [] blk = Inr blk"
| "zero_block op n (dvSet # ds) blk =
     (case map_of (dvOffset op) dvSet of
        None \<Rightarrow> Inl (KeyError dvSet)
      | Some (s0, s1) \<Rightarrow>
          if s1 - s0 < 0 then Inl (ValueError ''zeros'')
          else zero_block op n ds (AList.update dvSet (zeros2 n (nat (s1 - s0))) blk))"

fun zero_gcon :: "optProblem \<Rightarrow> string list \<Rightarrow> pydict \<Rightarrow> error + pydict" where
  "zero_gcon op [] gcon = Inr gcon"
| "zero_gcon op (oKey # oKeys) gcon =
     (case map_of (constraints op) oKey of
        None \<Rightarrow> Inl (KeyError oKey)
      | Some c \<Rightarrow>
          (case zero_block op (ncon c) (wrt c) [] of
             Inl e \<Rightarrow> Inl e
           | Inr blk \<Rightarrow> zero_gcon op oKeys (AList.update oKey (PyDict blk) gcon)))"

text \<open>\<^verbatim>\<open>gobj[dvSet] = numpy.zeros(ndvs)\<close> for every \<^verbatim>\<open>dvSet\<close> in \<^verbatim>\<open>self.optProb.variables\<close>.\<close>

fun zero_gobj :: "optProblem \<Rightarrow> string list \<Rightarrow> pydict \<Rightarrow> error + pydict" where
  "zero_gobj op [] gobj = Inr gobj"
| "zero_gobj op (dvSet # ds) gobj =
     (case map_of (dvOffset op) dvSet of
        None \<Rightarrow> Inl (KeyError dvSet)
      | Some (s0, s1) \<Rightarrow>
          if s1 - s0 < 0 then Inl (ValueError ''zeros'')
          else zero_gobj op ds (AList.update dvSet (zeros1 (nat (s1 - s0))) gobj))"

text \<open>\<^verbatim>\<open>for pKey in self.passThroughKeys: gcon[pKey] = funcSens[pKey]\<close>\<close>

fun pass_through :: "pydict \<Rightarrow> string list \<Rightarrow> pydict \<Rightarrow> error + pydict" where
  "pass_through funcSens [] gcon = Inr gcon"
| "pass_through funcSens (pKey # pKeys) gcon =
     (case map_of funcSens pKey of
        None \<Rightarrow> Inl (KeyError pKey)
      | Some v \<Rightarrow> pass_through funcSens pKeys (AList.update pKey v gcon))"

subsection \<open>The chain rule for one perturbation\<close>

text \<open>
  \<open>sel\<close> picks what is multiplied: \<^verbatim>\<open>funcSens[iKey][dvSet]\<close> itself for a scalar functional
  (\<open>None\<close>), its row \<^verbatim>\<open>[i, :]\<close> for entry \<open>i\<close> of a vector functional.
\<close>

definition select_row :: "nat option \<Rightarrow> pyval \<Rightarrow> error + pyval" where
  "select_row idx v =
     (case idx of
        None \<Rightarrow> Inr v
      | Some i \<Rightarrow>
          (case v of
             PyArray rows \<Rightarrow>
               if i < length rows then
                 (case rows ! i of PyArray r \<Rightarrow> Inr (PyArray r) | _ \<Rightarrow> Inl (IndexError ''row''))
               else Inl (IndexError ''row'')
           | _ \<Rightarrow> Inl (IndexError ''row'')))"

text \<open>
  \<^verbatim>\<open>for dvSet in funcSens[iKey]: if dvSet in self.optProb.variables:\<close>
  \<^verbatim>\<open>deriv = numpy.imag(obj)/1e-40; gobj[dvSet] += deriv * funcSens[iKey][dvSet]\<close>
\<close>

fun accum_gobj ::
  "string list \<Rightarrow> pyval \<Rightarrow> nat option \<Rightarrow> pydict \<Rightarrow> pydict \<Rightarrow> error + pydict" where
  "accum_gobj vars ob idx [] gobj = Inr gobj"
| "accum_gobj vars ob idx ((dvSet, fs) # rest) gobj =
     (if dvSet \<in> set vars then
        ebind (cs_deriv ob) (\<lambda>deriv.
        ebind (case deriv of PyFloat d \<Rightarrow> Inr d | _ \<Rightarrow> Inl (Unmodelled ''deriv'')) (\<lambda>d.
        ebind (select_row idx fs) (\<lambda>row. ebind (real_vector row) (\<lambda>s.
        ebind (case map_of gobj dvSet of None \<Rightarrow> Inl (KeyError dvSet) | Some g \<Rightarrow> real_vector g)
          (\<lambda>g. ebind (axpy d s g) (\<lambda>g'.
        accum_gobj vars ob idx rest (AList.update dvSet (vector_val g') gobj)))))))
      else accum_gobj vars ob idx rest gobj)"

text \<open>
  The inner loop over \<^verbatim>\<open>self.optProb.constraints[oKey].wrt\<close>, on the block \<^verbatim>\<open>gcon[oKey]\<close>:
  \<^verbatim>\<open>if dvSet in funcSens[iKey]:\<close>
  \<^verbatim>\<open>deriv = (numpy.imag(con[oKey])/1e-40).reshape((ncon, 1))\<close>;
  \<^verbatim>\<open>gcon[oKey][dvSet] += numpy.dot(deriv, numpy.atleast_2d(funcSens[iKey][dvSet]))\<close>
\<close>

fun accum_block ::
  "pydict \<Rightarrow> nat option \<Rightarrow> pydict \<Rightarrow> string \<Rightarrow> nat \<Rightarrow> string list \<Rightarrow> pydict \<Rightarrow> error + pydict" where
  "accum_block con idx fsd oKey n [] blk = Inr blk"
| "accum_block con idx fsd oKey n (dvSet # ds) blk =
     (case map_of fsd dvSet of
        None \<Rightarrow> accum_block con idx fsd oKey n ds blk
      | Some fs \<Rightarrow>
          ebind (case map_of con oKey of None \<Rightarrow> Inl (KeyError oKey) | Some cv \<Rightarrow> cs_deriv cv)
            (\<lambda>dv. ebind (reshape_column n dv) (\<lambda>col.
          ebind (case map_of blk dvSet of None \<Rightarrow> Inl (KeyError dvSet) | Some g \<Rightarrow> real_matrix g)
            (\<lambda>G. ebind (select_row idx fs) (\<lambda>row. ebind (atleast_2d row) (\<lambda>M.
          ebind (add_outer col M G) (\<lambda>G'.
          accum_block con idx fsd oKey n ds (AList.update dvSet (matrix_val G') blk))))))))"

fun accum_gcon ::
  "optProblem \<Rightarrow> pydict \<Rightarrow> nat option \<Rightarrow> pydict \<Rightarrow> string list \<Rightarrow> pydict \<Rightarrow> error + pydict" where
  "accum_gcon op con idx fsd [] gcon = Inr gcon"
| "accum_gcon op con idx fsd (oKey # oKeys) gcon =
     (case map_of (constraints op) oKey of
        None \<Rightarrow> Inl (KeyError oKey)
      | Some c \<Rightarrow>
          (case map_of gcon oKey of
             Some (PyDict blk) \<Rightarrow>
               ebind (accum_block con idx fsd oKey (ncon c) (wrt c) blk) (\<lambda>blk'.
               accum_gcon op con idx fsd oKeys (AList.update oKey (PyDict blk') gcon))
           | Some v \<Rightarrow>
               if list_ex (\<lambda>dvSet. dvSet \<in> set (map fst fsd)) (wrt c)
               then Inl (Unmodelled ''gcon'') else accum_gcon op con idx fsd oKeys gcon
           | None \<Rightarrow>
               if list_ex (\<lambda>dvSet. dvSet \<in> set (map fst fsd)) (wrt c)
               then Inl (KeyError oKey) else accum_gcon op con idx fsd oKeys gcon))"

text \<open>Both accumulations after one call of the combination function.\<close>

definition accumulate ::
  "optProblem \<Rightarrow> string list \<Rightarrow> pydict \<Rightarrow> string \<Rightarrow> nat option \<Rightarrow> pyval \<Rightarrow> pydict \<Rightarrow>
   pydict \<times> pydict \<Rightarrow> error + pydict \<times> pydict" where
  "accumulate op oKeys funcSens iKey idx ob con gg =
     (case map_of funcSens iKey of
        None \<Rightarrow> Inl (KeyError iKey)
      | Some (PyDict fsd) \<Rightarrow>
          ebind (accum_gobj (variables op) ob idx fsd (fst gg)) (\<lambda>gobj.
          ebind (accum_gcon op con idx fsd oKeys (snd gg)) (\<lambda>gcon. Inr (gobj, gcon)))
      | Some v \<Rightarrow> Inl (Unmodelled ''funcSens''))"

subsection \<open>The stored functionals and the complex step\<close>

text \<open>
  \<^verbatim>\<open>_complexifyFuncs(funcs, keys)\<close> works on the dictionary it is given, here the one at
  address \<open>a\<close> of the heap, and returns the same dictionary: every entry of a key in \<open>keys\<close>
  that is not a scalar is replaced by a complex array.
\<close>

fun complexifyFuncs ::
  "nat option \<Rightarrow> string list \<Rightarrow> pydict list \<Rightarrow> (error + unit) \<times> pydict list" where
  "complexifyFuncs a [] hp = (Inr (), hp)"
| "complexifyFuncs a (key # keys) hp =
     (case a of
        None \<Rightarrow> (Inl (TypeError ''funcs''), hp)
      | Some ad \<Rightarrow>
          (case map_of (hp ! ad) key of
             None \<Rightarrow> (Inl (KeyError key), hp)
           | Some v \<Rightarrow>
               if isscalar v then complexifyFuncs a keys hp
               else (case astype_D v of
                       Inl e \<Rightarrow> (Inl e, hp)
                     | Inr v' \<Rightarrow>
                         complexifyFuncs a keys (hp[ad := AList.update key v' (hp ! ad)]))))"

type_synonym objcon = "pydict \<Rightarrow> error + pyval \<times> pydict"

text \<open>
  \<^verbatim>\<open>funcs[iKey] += 1e-40j; obj, con = self.userObjCon(funcs); funcs[iKey] -= 1e-40j\<close>
  on the dictionary at address \<open>a\<close>. The combination function is called with that whole
  dictionary.
\<close>

definition call_objCon :: "objcon option \<Rightarrow> pydict \<Rightarrow> error + pyval \<times> pydict" where
  "call_objCon f d = (case f of None \<Rightarrow> Inl (TypeError ''userObjCon'') | Some g \<Rightarrow> g d)"

definition perturb_scalar ::
  "objcon option \<Rightarrow> nat \<Rightarrow> string \<Rightarrow> pyval \<Rightarrow> pydict list \<Rightarrow>
   (error + pyval \<times> pydict) \<times> pydict list" where
  "perturb_scalar f a iKey v hp =
     (case py_add v (PyComplex 0 step_h) of
        Inl e \<Rightarrow> (Inl e, hp)
      | Inr v1 \<Rightarrow>
          let hp1 = hp[a := AList.update iKey v1 (hp ! a)] in
          (case call_objCon f (hp1 ! a) of
             Inl e \<Rightarrow> (Inl e, hp1)
           | Inr oc \<Rightarrow>
               (case py_sub v1 (PyComplex 0 step_h) of
                  Inl e \<Rightarrow> (Inl e, hp1)
                | Inr v2 \<Rightarrow> (Inr oc, hp1[a := AList.update iKey v2 (hp1 ! a)]))))"

text \<open>
  \<^verbatim>\<open>funcs[iKey][i] += 1e-40j; obj, con = self.userObjCon(funcs); funcs[iKey][i] -= 1e-40j\<close>
\<close>

definition perturb_entry ::
  "objcon option \<Rightarrow> nat \<Rightarrow> string \<Rightarrow> nat \<Rightarrow> pydict list \<Rightarrow>
   (error + pyval \<times> pydict) \<times> pydict list" where
  "perturb_entry f a iKey i hp =
     (case map_of (hp ! a) iKey of
        Some (PyArray xs) \<Rightarrow>
          if length xs \<le> i then (Inl (IndexError iKey), hp)
          else
            (case array_iadd (PyComplex 0 step_h) (xs ! i) of
               Inl e \<Rightarrow> (Inl e, hp)
             | Inr x1 \<Rightarrow>
                 let hp1 = hp[a := AList.update iKey (PyArray (xs[i := x1])) (hp ! a)] in
                 (case call_objCon f (hp1 ! a) of
                    Inl e \<Rightarrow> (Inl e, hp1)
                  | Inr oc \<Rightarrow>
                      (case array_isub (PyComplex 0 step_h) x1 of
                         Inl e \<Rightarrow> (Inl e, hp1)
                       | Inr x2 \<Rightarrow>
                           (Inr oc, hp1[a := AList.update iKey (PyArray (xs[i := x2])) (hp1 ! a)]))))
      | Some v \<Rightarrow> (Inl (TypeError iKey), hp)
      | None \<Rightarrow> (Inl (KeyError iKey), hp))"

text \<open>\<^verbatim>\<open>for i in range(len(funcs[iKey])):\<close> the entries of a vector functional in turn.\<close>

fun cs_vector ::
  "objcon option \<Rightarrow> optProblem \<Rightarrow> string list \<Rightarrow> pydict \<Rightarrow> nat \<Rightarrow> string \<Rightarrow> nat list \<Rightarrow>
   pydict \<times> pydict \<Rightarrow> pydict list \<Rightarrow> (error + pydict \<times> pydict) \<times> pydict list" where
  "cs_vector f op oKeys funcSens a iKey [] gg hp = (Inr gg, hp)"
| "cs_vector f op oKeys funcSens a iKey (i # idxs) gg hp =
     (case perturb_entry f a iKey i hp of
        (Inl e, hp1) \<Rightarrow> (Inl e, hp1)
      | (Inr (ob, con), hp1) \<Rightarrow>
          (case accumulate op oKeys funcSens iKey (Some i) ob con gg of
             Inl e \<Rightarrow> (Inl e, hp1)
           | Inr gg' \<Rightarrow> cs_vector f op oKeys funcSens a iKey idxs gg' hp1))"

text \<open>\<^verbatim>\<open>for iKey in self.inputKeys:\<close> the complex-step loop.\<close>

fun cs_loop ::
  "objcon option \<Rightarrow> optProblem \<Rightarrow> string list \<Rightarrow> pydict \<Rightarrow> nat option \<Rightarrow> string list \<Rightarrow>
   pydict \<times> pydict \<Rightarrow> pydict list \<Rightarrow> (error + pydict \<times> pydict) \<times> pydict list" where
  "cs_loop f op oKeys funcSens a [] gg hp = (Inr gg, hp)"
| "cs_loop f op oKeys funcSens a (iKey # iKeys) gg hp =
     (case a of
        None \<Rightarrow> (Inl (TypeError ''funcs''), hp)
      | Some ad \<Rightarrow>
          (case map_of (hp ! ad) iKey of
             None \<Rightarrow> (Inl (KeyError iKey), hp)
           | Some v \<Rightarrow>
               if isscalar v then
                 (case perturb_scalar f ad iKey v hp of
                    (Inl e, hp1) \<Rightarrow> (Inl e, hp1)
                  | (Inr (ob, con), hp1) \<Rightarrow>
                      (case accumulate op oKeys funcSens iKey None ob con gg of
                         Inl e \<Rightarrow> (Inl e, hp1)
                       | Inr gg' \<Rightarrow> cs_loop f op oKeys funcSens a iKeys gg' hp1))
               else
                 (case v of
                    PyArray xs \<Rightarrow>
                      (case cs_vector f op oKeys funcSens ad iKey [0..<length xs] gg hp of
                         (Inl e, hp1) \<Rightarrow> (Inl e, hp1)
                       | (Inr gg', hp1) \<Rightarrow> cs_loop f op oKeys funcSens a iKeys gg' hp1)
                  | _ \<Rightarrow> (Inl (TypeError iKey), hp))))"

text \<open>
  The two loops that set up the zero blocks for the output keys read
  \<^verbatim>\<open>self.optProb.constraints\<close> only when there is an output key.
\<close>

definition zero_gcon_opt :: "optProblem option \<Rightarrow> string list \<Rightarrow> pydict \<Rightarrow> error + pydict" where
  "zero_gcon_opt opo oKeys gcon =
     (if oKeys = [] then Inr gcon
      else case opo of None \<Rightarrow> Inl (AttributeError ''constraints'')
                     | Some op \<Rightarrow> zero_gcon op oKeys gcon)"

text \<open>
  The part of \<^verbatim>\<open>sens\<close> after the failure flag has been reduced. The local variable
  \<^verbatim>\<open>funcs\<close> is a reference: first to \<^verbatim>\<open>self.funcs\<close> (what \<^verbatim>\<open>_complexifyFuncs\<close> returns), then
  to the new dictionary of \<^verbatim>\<open>_extractKeys\<close>, and from the second call of
  \<^verbatim>\<open>_complexifyFuncs\<close> on to \<^verbatim>\<open>self.funcs\<close> again, on which the complex-step loop works.
\<close>

definition sens_chain ::
  "pydict \<Rightarrow> bool \<Rightarrow> multiPointSparse \<Rightarrow> (error + pydict \<times> pydict \<times> bool) \<times> multiPointSparse" where
  "sens_chain funcSens fail self =
     (case inputKeys self of
        None \<Rightarrow> (Inl (TypeError ''inputKeys''), self)
      | Some ik \<Rightarrow>
     (case complexifyFuncs (funcs self) ik (heap self) of
        (Inl e, hp1) \<Rightarrow> (Inl e, self\<lparr>heap := hp1\<rparr>)
      | (Inr u, hp1) \<Rightarrow>
     (case (case funcs self of None \<Rightarrow> Inr [] | Some a \<Rightarrow> extractKeys (hp1 ! a) ik []) of
        Inl e \<Rightarrow> (Inl e, self\<lparr>heap := hp1\<rparr>)
      | Inr extracted \<Rightarrow>
     let self2 = self\<lparr>heap := hp1 @ [extracted]\<rparr> in
     (case passThroughKeys self2 of
        None \<Rightarrow> (Inl (TypeError ''passThroughKeys''), self2)
      | Some pk \<Rightarrow>
     (case pass_through funcSens pk [] of
        Inl e \<Rightarrow> (Inl e, self2)
      | Inr gcon1 \<Rightarrow>
     (case outputKeys self2 of
        None \<Rightarrow> (Inl (TypeError ''outputKeys''), self2)
      | Some ok \<Rightarrow>
     (case zero_gcon_opt (optProb self2) ok gcon1 of
        Inl e \<Rightarrow> (Inl e, self2)
      | Inr gcon2 \<Rightarrow>
     (case complexifyFuncs (funcs self2) ik (heap self2) of
        (Inl e, hp3) \<Rightarrow> (Inl e, self2\<lparr>heap := hp3\<rparr>)
      | (Inr u, hp3) \<Rightarrow>
     let self3 = self2\<lparr>heap := hp3\<rparr> in
     (case optProb self3 of
        None \<Rightarrow> (Inl (AttributeError ''variables''), self3)
      | Some op \<Rightarrow>
     (case zero_gobj op (variables op) [] of
        Inl e \<Rightarrow> (Inl e, self3)
      | Inr gobj1 \<Rightarrow>
     (case zero_gcon op ok gcon2 of
        Inl e \<Rightarrow> (Inl e, self3)
      | Inr gcon3 \<Rightarrow>
     (case cs_loop (userObjCon self3) op ok funcSens (funcs self3) ik (gobj1, gcon3) hp3 of
        (Inl e, hp4) \<Rightarrow> (Inl e, self3\<lparr>heap := hp4\<rparr>)
      | (Inr (gobj, gcon), hp4) \<Rightarrow>
          (Inr (gobj, gcon, fail),
           self3\<lparr>heap := hp4, trace := trace self3 @ [Bcast 0, Bcast 0, Bcast 0]\<rparr>)))))))))))))"

text \<open>\<^verbatim>\<open>multiPointSparse.sens\<close>\<close>

definition sens ::
  "pyval \<Rightarrow> pyval \<Rightarrow> pydict \<Rightarrow> pydict list \<Rightarrow> multiPointSparse \<Rightarrow>
   (error + pydict \<times> pydict \<times> bool) \<times> multiPointSparse" where
  "sens x fObj fCon peers self =
     (case local_results (pSet self) (setFlags self)
             (\<lambda>p. map (\<lambda>func. func x fObj fCon) (sensFunc p)) sens_message None of
        Inl e \<Rightarrow> (Inl e, self)
      | Inr res \<Rightarrow>
          (case commPattern self of
             None \<Rightarrow> (Inl (TypeError ''commPattern''), self)
           | Some cp \<Rightarrow>
               (case communicate cp (comm_rank (gcomm self)) res peers [] (trace self) of
                  (Inl e, tr) \<Rightarrow> (Inl e, self\<lparr>trace := tr\<rparr>)
                | (Inr funcSens, tr) \<Rightarrow>
                    (case res of
                       None \<Rightarrow> (Inl (UnboundLocalError ''res''), self\<lparr>trace := tr\<rparr>)
                     | Some r \<Rightarrow>
                         (case map_of r ''fail'' of
                            None \<Rightarrow> (Inl (KeyError ''fail''), self\<lparr>trace := tr\<rparr>)
                          | Some fv \<Rightarrow>
                              sens_chain funcSens
                                (allreduce_LOR (gathered peers (comm_rank (gcomm self)) r))
                                (self\<lparr>trace := tr @ [Allreduce]\<rparr>))))))"

subsection \<open>A combination function\<close>

text \<open>
  The user callback of the worked example of the specification:
  \<^verbatim>\<open>objCon(f) = (f['a'] + f['b'], {'c': f['a'] * f['b']})\<close>.
\<close>

definition objCon_example :: "pydict \<Rightarrow> error + pyval \<times> pydict" where
  "objCon_example f =
     (case map_of f ''a'' of
        None \<Rightarrow> Inl (KeyError ''a'')
      | Some a \<Rightarrow>
          (case map_of f ''b'' of
             None \<Rightarrow> Inl (KeyError ''b'')
           | Some b \<Rightarrow>
               ebind (py_add a b) (\<lambda>s. ebind (py_mul a b) (\<lambda>p. Inr (s, [(''c'', p)])))))"

section \<open>Properties of the splitting routines\<close>

lemma required_procs_sum: "required_procs ps = sum_list (map (\<lambda>kp. nProc (snd kp)) ps)"
proof -
  have "fold (\<lambda>(key, p) n. n + nProc p) ps a = a + sum_list (map (\<lambda>kp. nProc (snd kp)) ps)" for a
    by (induction ps arbitrary: a) auto
  then show ?thesis by (simp add: required_procs_def)
qed

subsection \<open>Prefix sums and the interval of a rank\<close>

lemma cumulative_prefix:
  assumes "k \<le> n" and "n \<le> length sizes"
  shows "length (fold (\<lambda>i c. c[i + 1 := c ! i + sizes ! i]) [0..<k] (replicate (n + 1) 0)) = n + 1
       \<and> (\<forall>i\<le>k. fold (\<lambda>i c. c[i + 1 := c ! i + sizes ! i]) [0..<k] (replicate (n + 1) 0) ! i
                  = sum_list (take i sizes))"
  using assms
proof (induction k)
  case 0
  then show ?case by simp
next
  case (Suc k)
  let ?c = "fold (\<lambda>i c. c[i + 1 := c ! i + sizes ! i]) [0..<k] (replicate (n + 1) 0)"
  from Suc have len: "length ?c = n + 1" and pre: "\<forall>i\<le>k. ?c ! i = sum_list (take i sizes)"
    by simp_all
  have k: "k < length sizes" "k < n" using Suc.prems by simp_all
  have step: "fold (\<lambda>i c. c[i + 1 := c ! i + sizes ! i]) [0..<Suc k] (replicate (n + 1) 0)
                = ?c[k + 1 := ?c ! k + sizes ! k]"
    by simp
  have "\<forall>i\<le>Suc k. (?c[k + 1 := ?c ! k + sizes ! k]) ! i = sum_list (take i sizes)"
  proof (intro allI impI)
    fix i assume i: "i \<le> Suc k"
    show "(?c[k + 1 := ?c ! k + sizes ! k]) ! i = sum_list (take i sizes)"
    proof (cases "i = Suc k")
      case True
      then show ?thesis using len k pre
        by (simp add: take_Suc_conv_app_nth)
    next
      case False
      then show ?thesis using i pre by simp
    qed
  qed
  then show ?case using len unfolding step by simp
qed

lemma cumulative_nth:
  "n \<le> length sizes \<Longrightarrow> i \<le> n \<Longrightarrow> cumulative n sizes ! i = sum_list (take i sizes)"
  using cumulative_prefix [of n n sizes] by (simp add: cumulative_def)

lemma length_cumulative: "n \<le> length sizes \<Longrightarrow> length (cumulative n sizes) = n + 1"
  using cumulative_prefix [of n n sizes] by (simp add: cumulative_def)

text \<open>The last index that satisfies a test.\<close>

lemma last_match_Some:
  "fold (\<lambda>i mk. if P i then Some i else mk) [0..<n] None = Some k
     \<longleftrightarrow> k < n \<and> P k \<and> (\<forall>j. k < j \<and> j < n \<longrightarrow> \<not> P j)"
proof (induction n arbitrary: k)
  case 0
  then show ?case by simp
next
  case (Suc n)
  show ?case
  proof (cases "P n")
    case True
    then show ?thesis
      by (auto simp: less_Suc_eq) 
  next
    case False
    then show ?thesis using Suc.IH
      by (auto simp: less_Suc_eq)
  qed
qed

lemma last_match_None:
  "fold (\<lambda>i mk. if P i then Some i else mk) [0..<n] None = None \<longleftrightarrow> (\<forall>j<n. \<not> P j)"
  by (induction n) (auto simp: less_Suc_eq)

lemma sum_take_mono: "i \<le> j \<Longrightarrow> sum_list (take i (xs::nat list)) \<le> sum_list (take j xs)"
proof -
  assume "i \<le> j"
  then have "take j xs = take i xs @ take (j - i) (drop i xs)"
    by (metis le_add_diff_inverse take_add)
  then show ?thesis by simp
qed

text \<open>Exactly one interval of the prefix sums holds a rank below the total.\<close>

lemma interval_exists:
  assumes "r < sum_list (xs::nat list)"
  shows "\<exists>k<length xs. sum_list (take k xs) \<le> r \<and> r < sum_list (take (Suc k) xs)"
  using assms
proof (induction xs rule: rev_induct)
  case Nil
  then show ?case by simp
next
  case (snoc x xs)
  show ?case
  proof (cases "r < sum_list xs")
    case True
    with snoc.IH obtain k where "k < length xs" "sum_list (take k xs) \<le> r"
      "r < sum_list (take (Suc k) xs)" by blast
    then show ?thesis by (intro exI [of _ k]) (simp add: Suc_le_eq)
  next
    case False
    then show ?thesis using snoc.prems
      by (intro exI [of _ "length xs"]) simp
  qed
qed

lemma interval_unique:
  assumes "sum_list (take j xs) \<le> r" "r < sum_list (take (Suc j) xs)"
      and "sum_list (take k xs) \<le> r" "r < sum_list (take (Suc k) (xs::nat list))"
  shows "j = k"
proof (rule ccontr)
  assume "j \<noteq> k"
  then consider "Suc j \<le> k" | "Suc k \<le> j" by linarith
  then show False
  proof cases
    case 1
    from sum_take_mono [OF 1, of xs] assms show False by simp
  next
    case 2
    from sum_take_mono [OF 2, of xs] assms show False by simp
  qed
qed

lemma member_key_loop_interval:
  assumes "n = length sizes"
  shows "member_key_loop n (cumulative n sizes) r = Some k
           \<longleftrightarrow> k < n \<and> sum_list (take k sizes) \<le> r \<and> r < sum_list (take (Suc k) sizes)"
proof -
  let ?P = "\<lambda>i. cumulative n sizes ! i \<le> r \<and> r < cumulative n sizes ! (i + 1)"
  have P: "?P i \<longleftrightarrow> sum_list (take i sizes) \<le> r \<and> r < sum_list (take (Suc i) sizes)"
    if "i < n" for i
    using that assms by (simp add: cumulative_nth)
  have "member_key_loop n (cumulative n sizes) r = Some k
          \<longleftrightarrow> k < n \<and> ?P k \<and> (\<forall>j. k < j \<and> j < n \<longrightarrow> \<not> ?P j)"
    unfolding member_key_loop_def by (rule last_match_Some)
  also have "\<dots> \<longleftrightarrow> k < n \<and> sum_list (take k sizes) \<le> r \<and> r < sum_list (take (Suc k) sizes)"
    using P interval_unique [of _ sizes r k] by (metis less_irrefl_nat)
  finally show ?thesis .
qed

lemma member_key_loop_None:
  assumes "n = length sizes"
  shows "member_key_loop n (cumulative n sizes) r = None \<longleftrightarrow> sum_list sizes \<le> r"
proof
  assume "member_key_loop n (cumulative n sizes) r = None"
  show "sum_list sizes \<le> r"
  proof (rule ccontr)
    assume "\<not> sum_list sizes \<le> r"
    then obtain k where "k < length sizes" "sum_list (take k sizes) \<le> r"
      "r < sum_list (take (Suc k) sizes)" using interval_exists [of r sizes] by auto
    then have "member_key_loop n (cumulative n sizes) r = Some k"
      using assms by (simp add: member_key_loop_interval)
    with \<open>member_key_loop n (cumulative n sizes) r = None\<close> show False by simp
  qed
next
  assume le: "sum_list sizes \<le> r"
  show "member_key_loop n (cumulative n sizes) r = None"
  proof (cases "member_key_loop n (cumulative n sizes) r")
    case None then show ?thesis .
  next
    case (Some k)
    then have "k < n" "r < sum_list (take (Suc k) sizes)"
      using assms by (simp_all add: member_key_loop_interval)
    moreover have "sum_list (take (Suc k) sizes) \<le> sum_list sizes"
      using sum_take_mono [of "Suc k" "length sizes" sizes] calculation assms by simp
    ultimately show ?thesis using le by simp
  qed
qed


lemma length_filter_interval:
  "length (filter (\<lambda>x. a \<le> x \<and> x < b) [0..<r]) = min r b - a"
proof -
  have "filter (\<lambda>x. a \<le> x \<and> x < b) [0..<r] = [a..<min r b]"
  proof (induction r)
    case 0 then show ?case by simp
  next
    case (Suc r)
    then show ?case by (auto simp: min_def not_less not_le less_Suc_eq_le)
  qed
  then show ?thesis by simp
qed

lemma Split_rank_interval:
  assumes n: "n = length sizes"
      and k: "member_key_loop n (cumulative n sizes) r = Some k"
  shows "Split_rank (member_key_loop n (cumulative n sizes)) r = r - sum_list (take k sizes)"
proof -
  from k n have kb: "k < n" "sum_list (take k sizes) \<le> r" "r < sum_list (take (Suc k) sizes)"
    by (simp_all add: member_key_loop_interval)
  have "filter (\<lambda>r'. member_key_loop n (cumulative n sizes) r'
                   = member_key_loop n (cumulative n sizes) r) [0..<r]
      = filter (\<lambda>x. sum_list (take k sizes) \<le> x \<and> x < sum_list (take (Suc k) sizes)) [0..<r]"
  proof (intro filter_cong refl)
    fix x
    show "(member_key_loop n (cumulative n sizes) x = member_key_loop n (cumulative n sizes) r)
            = (sum_list (take k sizes) \<le> x \<and> x < sum_list (take (Suc k) sizes))"
      unfolding k using n kb by (simp add: member_key_loop_interval)
  qed
  then show ?thesis using kb
    by (simp add: Split_rank_def length_filter_interval min_def)
qed

subsection \<open>The split of a well-formed object\<close>

lemma wf_pSet_Nil: "wf_pSet []"
  by (simp add: wf_pSet_def)

lemma wf_pSet_snoc:
  "wf_pSet (ps @ [(k, p)]) \<longleftrightarrow>
     wf_pSet ps \<and> k \<notin> fst ` set ps \<and> setID p = length ps \<and> setName p = k \<and>
     length (memberSizes p) = nMembers p \<and> nProc p = sum_list (memberSizes p)"
  by (auto simp: wf_pSet_def)

lemma set_sizes_fold:
  assumes "map (\<lambda>kp. setID (snd kp)) ps = [0..<length ps]" and "length ps \<le> m"
  shows "fold (\<lambda>(key, p) s. s[setID p := nProc p]) ps (replicate m 0)
           = map (\<lambda>kp. nProc (snd kp)) ps @ replicate (m - length ps) 0"
  using assms
proof (induction ps rule: rev_induct)
  case Nil
  then show ?case by simp
next
  case (snoc x ps)
  obtain k p where x: "x = (k, p)" by (cases x)
  from snoc.prems have ids: "map (\<lambda>kp. setID (snd kp)) ps = [0..<length ps]"
    and sid: "setID p = length ps" and m: "length ps < m"
    by (simp_all add: x)
  have "replicate (m - length ps) (0::nat) = 0 # replicate (m - Suc (length ps)) 0"
    using m by (cases "m - length ps") (simp_all add: Suc_diff_Suc)
  then show ?case using snoc.IH [OF ids] m
    by (simp add: x sid list_update_append)
qed

lemma set_sizes_wf: "wf_pSet ps \<Longrightarrow> set_sizes ps = map (\<lambda>kp. nProc (snd kp)) ps"
  using set_sizes_fold [of ps "length ps"] by (simp add: set_sizes_def wf_pSet_def)

lemma set_key_loop_snoc:
  "set_key_loop (ps @ [(k, p)]) cum r =
     (case set_key_loop ps cum r of (memberKey, flags) \<Rightarrow>
        if cum ! setID p \<le> r \<and> r < cum ! (setID p + 1)
        then (Some (setID p), AList.update (setName p) True flags)
        else (memberKey, AList.update (setName p) False flags))"
  by (simp add: set_key_loop_def split: prod.splits)

lemma member_key_loop_Suc:
  "member_key_loop (Suc n) cum r =
     (if cum ! n \<le> r \<and> r < cum ! (n + 1) then Some n else member_key_loop n cum r)"
  by (simp add: member_key_loop_def)

lemma set_key_loop_wf:
  assumes "wf_pSet ps"
  shows "fst (set_key_loop ps cum r) = member_key_loop (length ps) cum r
       \<and> fst ` set (snd (set_key_loop ps cum r)) = fst ` set ps
       \<and> (\<forall>i<length ps. map_of (snd (set_key_loop ps cum r)) (fst (ps ! i))
              = Some (cum ! i \<le> r \<and> r < cum ! (i + 1)))"
  using assms
proof (induction ps rule: rev_induct)
  case Nil
  then show ?case by (simp add: set_key_loop_def member_key_loop_def)
next
  case (snoc x ps)
  obtain k p where x: "x = (k, p)" by (cases x)
  from snoc.prems have wf: "wf_pSet ps" and k: "k \<notin> fst ` set ps"
    and sid: "setID p = length ps" and nm: "setName p = k"
    by (simp_all add: x wf_pSet_snoc)
  note IH = snoc.IH [OF wf]
  obtain mk fl where s: "set_key_loop ps cum r = (mk, fl)" by (cases "set_key_loop ps cum r")
  have old: "fst (ps ! i) \<noteq> k" if "i < length ps" for i
    using k that by (metis image_eqI nth_mem)
  show ?case
    using IH old
    by (auto simp: x set_key_loop_snoc s sid nm member_key_loop_Suc AList.update_conv'
        AList.dom_update nth_append less_Suc_eq)
qed


lemma procSet_createCommunicators_wf:
  assumes len: "length (memberSizes p) = nMembers p"
      and r: "comm_rank g < sum_list (memberSizes p)"
  shows "\<exists>m<nMembers p.
           sum_list (take m (memberSizes p)) \<le> comm_rank g \<and>
           comm_rank g < sum_list (take (Suc m) (memberSizes p)) \<and>
           procSet_createCommunicators p g =
             Inr (p\<lparr>member_comm := Some (Split_comm (member_key_loop (nMembers p)
                                  (cumulative (nMembers p) (memberSizes p))) g),
                    groupFlags := Some ((replicate (nMembers p) False)[m := True]),
                    groupID := Some m,
                    cumGroups := Some (cumulative (nMembers p) (memberSizes p))\<rparr>, m)"
proof -
  from interval_exists [OF r] obtain m where m: "m < length (memberSizes p)"
    "sum_list (take m (memberSizes p)) \<le> comm_rank g"
    "comm_rank g < sum_list (take (Suc m) (memberSizes p))" by blast
  then have "member_key_loop (nMembers p) (cumulative (nMembers p) (memberSizes p)) (comm_rank g)
               = Some m"
    using len by (simp add: member_key_loop_interval)
  then show ?thesis using m len
    by (intro exI [of _ m]) (simp add: procSet_createCommunicators_def Let_def)
qed

lemma set_comm_loop_skip:
  "list_all (\<lambda>key. map_of flags key = Some False) keys \<Longrightarrow>
     set_comm_loop keys flags sc loc self = (Inr loc, self)"
  by (induction keys) simp_all

lemma set_comm_loop_one:
  assumes "list_all (\<lambda>key. map_of flags key = Some False) pre"
      and "list_all (\<lambda>key. map_of flags key = Some False) post"
      and "map_of flags name = Some True"
      and "map_of (pSet self) name = Some p"
      and "procSet_createCommunicators (p\<lparr>set_gcomm := Some sc\<rparr>) sc = Inr (p2, m)"
  shows "set_comm_loop (pre @ name # post) flags sc loc self =
           (Inr (Some (member_comm p2, groupFlags p2, groupID p2)),
            self\<lparr>pSet := AList.update name p2 (pSet self),
                 trace := trace self @ [Split m, Barrier]\<rparr>)"
  using assms by (induction pre) (simp_all add: set_comm_loop_skip)

lemma dummy_flags:
  "map_of (fold (\<lambda>key fl. AList.update key False fl) ds flags) name =
     (if name \<in> set ds then Some False else map_of flags name)"
  by (induction ds arbitrary: flags) (auto simp: AList.update_conv')

lemma update_fresh: "k \<notin> fst ` set al \<Longrightarrow> AList.update k v al = al @ [(k, v)]"
  by (induction al) auto


lemma createCommunicators_wf:
  assumes wf: "wf_pSet (pSet self)"
      and dis: "set (dummyPSet self) \<inter> fst ` set (pSet self) = {}"
      and tot: "sum_list (map (\<lambda>kp. nProc (snd kp)) (pSet self)) = comm_size (gcomm self)"
      and r: "comm_rank (gcomm self) < comm_size (gcomm self)"
  shows "\<exists>k m comm setComm flags self'.
      k < length (pSet self) \<and> m < nMembers (snd (pSet self ! k)) \<and>
      createCommunicators self =
        (Inr (comm, setComm, flags,
              (replicate (nMembers (snd (pSet self ! k))) False)[m := True], m), self') \<and>
      setFlags self' = Some flags \<and>
      (\<forall>name. map_of flags name = Some True \<longleftrightarrow> name = fst (pSet self ! k)) \<and>
      sum_list (take k (map (\<lambda>kp. nProc (snd kp)) (pSet self))) \<le> comm_rank (gcomm self) \<and>
      comm_rank (gcomm self) < sum_list (take (Suc k) (map (\<lambda>kp. nProc (snd kp)) (pSet self))) \<and>
      sum_list (take m (memberSizes (snd (pSet self ! k))))
        \<le> comm_rank (gcomm self) - sum_list (take k (map (\<lambda>kp. nProc (snd kp)) (pSet self))) \<and>
      comm_rank (gcomm self) - sum_list (take k (map (\<lambda>kp. nProc (snd kp)) (pSet self)))
        < sum_list (take (Suc m) (memberSizes (snd (pSet self ! k))))"
proof -
  define ps where "ps = pSet self"
  define n where "n = length ps"
  define sizes where "sizes = map (\<lambda>kp. nProc (snd kp)) ps"
  define cum where "cum = cumulative n (set_sizes ps)"
  define rank where "rank = comm_rank (gcomm self)"
  have wfps: "wf_pSet ps" using wf by (simp add: ps_def)
  have ssz: "set_sizes ps = sizes" using wfps by (simp add: set_sizes_wf sizes_def)
  have nlen: "n = length sizes" by (simp add: n_def sizes_def)
  have cum: "cum = cumulative n sizes" by (simp add: cum_def ssz)
  have rtot: "rank < sum_list sizes" using r tot by (simp add: rank_def sizes_def ps_def)
  from interval_exists [OF rtot] obtain k where k: "k < n"
    "sum_list (take k sizes) \<le> rank" "rank < sum_list (take (Suc k) sizes)"
    by (auto simp: nlen)
  have mk: "member_key_loop n cum r' = Some j \<longleftrightarrow>
              j < n \<and> sum_list (take j sizes) \<le> r' \<and> r' < sum_list (take (Suc j) sizes)" for r' j
    unfolding cum using nlen by (rule member_key_loop_interval)
  have mkk: "member_key_loop n cum rank = Some k" using k by (simp add: mk)
  have P: "(cum ! i \<le> rank \<and> rank < cum ! (i + 1)) \<longleftrightarrow> i = k" if "i < n" for i
  proof -
    have "(cum ! i \<le> rank \<and> rank < cum ! (i + 1))
            \<longleftrightarrow> sum_list (take i sizes) \<le> rank \<and> rank < sum_list (take (Suc i) sizes)"
      using that nlen by (simp add: cum cumulative_nth)
    also have "\<dots> \<longleftrightarrow> i = k"
      using k interval_unique [of i sizes rank k] by auto
    finally show ?thesis .
  qed
  obtain mkey flags where skl: "set_key_loop ps cum rank = (mkey, flags)"
    by (cases "set_key_loop ps cum rank")
  from set_key_loop_wf [OF wfps, of cum rank] skl
  have mkey: "mkey = Some k" and fdom: "fst ` set flags = fst ` set ps"
    and fl: "\<And>i. i < n \<Longrightarrow> map_of flags (fst (ps ! i)) = Some (i = k)"
    using mkk P by (simp_all add: n_def)
  have colour: "(\<lambda>r'. fst (set_key_loop ps cum r')) = member_key_loop n cum"
    using set_key_loop_wf [OF wfps, of cum] by (auto simp: n_def)
  define setComm where "setComm = Split_comm (member_key_loop n cum) (gcomm self)"
  have srank: "comm_rank setComm = rank - sum_list (take k sizes)"
    using Split_rank_interval [OF nlen, of rank k] mkk
    by (simp add: setComm_def Split_comm_def cum rank_def)
  define name where "name = fst (ps ! k)"
  define p where "p = snd (ps ! k)"
  have kin: "(name, p) \<in> set ps" using k by (simp add: name_def p_def n_def)
  have dist: "distinct (map fst ps)" using wfps by (simp add: wf_pSet_def)
  have look: "map_of ps name = Some p" using dist kin by simp
  have pwf: "length (memberSizes p) = nMembers p" "nProc p = sum_list (memberSizes p)"
    using wfps kin by (auto simp: wf_pSet_def list_all_iff)
  have szk: "sizes ! k = nProc p" using k by (simp add: sizes_def p_def n_def)
  have "sum_list (take (Suc k) sizes) = sum_list (take k sizes) + sizes ! k"
    using k nlen by (simp add: take_Suc_conv_app_nth)
  then have sr: "comm_rank setComm < sum_list (memberSizes (p\<lparr>set_gcomm := Some setComm\<rparr>))"
    using k srank szk pwf by simp
  have "length (memberSizes (p\<lparr>set_gcomm := Some setComm\<rparr>))
          = nMembers (p\<lparr>set_gcomm := Some setComm\<rparr>)"
    using pwf by simp
  from procSet_createCommunicators_wf [OF this sr]
  obtain m p2 where m: "m < nMembers p"
    "sum_list (take m (memberSizes p)) \<le> comm_rank setComm"
    "comm_rank setComm < sum_list (take (Suc m) (memberSizes p))"
    and pcc: "procSet_createCommunicators (p\<lparr>set_gcomm := Some setComm\<rparr>) setComm = Inr (p2, m)"
    and p2: "groupFlags p2 = Some ((replicate (nMembers p) False)[m := True])"
      "groupID p2 = Some m" "member_comm p2 \<noteq> None"
    by force
  obtain mc where mc: "member_comm p2 = Some mc" using p2 by auto
  have keys: "map fst ps = take k (map fst ps) @ name # drop (Suc k) (map fst ps)"
    using k id_take_nth_drop [of k "map fst ps"] by (simp add: name_def n_def)
  have other: "map_of flags key = Some False"
    if "key \<in> set (take k (map fst ps)) \<or> key \<in> set (drop (Suc k) (map fst ps))" for key
  proof -
    from that have "\<exists>i. i < n \<and> i \<noteq> k \<and> key = fst (ps ! i)"
    proof
      assume "key \<in> set (take k (map fst ps))"
      then obtain i where "i < k" "key = fst (ps ! i)"
        using k by (auto simp: in_set_conv_nth n_def)
      then show ?thesis using k by (intro exI [of _ i]) simp
    next
      assume "key \<in> set (drop (Suc k) (map fst ps))"
      then obtain i where "i < n - Suc k" "key = fst (ps ! (Suc k + i))"
        by (auto simp: in_set_conv_nth n_def)
      then show ?thesis by (intro exI [of _ "Suc k + i"]) simp
    qed
    then show ?thesis using fl by auto
  qed
  define self1 where "self1 = self\<lparr>trace := trace self @ [Split k]\<rparr>"
  have loop: "set_comm_loop (map fst ps) flags setComm None self1 =
           (Inr (Some (member_comm p2, groupFlags p2, groupID p2)),
            self1\<lparr>pSet := AList.update name p2 (pSet self1),
                 trace := trace self1 @ [Split m, Barrier]\<rparr>)"
    apply (subst keys)
    apply (rule set_comm_loop_one [where p = p])
    using other fl [OF k(1)] look pcc
    by (simp_all add: list_all_iff name_def self1_def ps_def)
  define self2 where "self2 = self1\<lparr>pSet := AList.update name p2 (pSet self1),
                 trace := trace self1 @ [Split m, Barrier]\<rparr>"
  define flags' where "flags' = fold (\<lambda>key fl. AList.update key False fl) (dummyPSet self2) flags"
  have "name \<in> fst ` set (pSet self)" using kin by (force simp: ps_def)
  then have nodummy: "name \<notin> set (dummyPSet self)" using dis by blast
  have ftrue: "map_of flags' nm = Some True \<longleftrightarrow> nm = name" for nm
  proof
    assume a: "map_of flags' nm = Some True"
    then have "map_of flags nm = Some True"
      by (simp add: flags'_def dummy_flags split: if_splits)
    then have "nm \<in> fst ` set ps" using fdom by (metis domI dom_map_of_conv_image_fst)
    then obtain i where i: "i < n" "nm = fst (ps ! i)" by (auto simp: in_set_conv_nth n_def)
    with fl [of i] \<open>map_of flags nm = Some True\<close> show "nm = name" by (simp add: name_def)
  next
    assume "nm = name"
    then show "map_of flags' nm = Some True"
      using nodummy fl [OF k(1)]
      by (simp add: flags'_def dummy_flags self2_def self1_def name_def)
  qed
  have noidx: "\<not> list_ex (\<lambda>(key, p). n \<le> setID p) ps"
  proof -
    have "setID (snd kp) < length ps" if "kp \<in> set ps" for kp
    proof -
      from that obtain i where "i < length ps" "kp = ps ! i" by (auto simp: in_set_conv_nth)
      moreover have "map (\<lambda>kp. setID (snd kp)) ps ! i = [0..<length ps] ! i"
        using wfps by (simp add: wf_pSet_def)
      ultimately show ?thesis by simp
    qed
    then show ?thesis by (fastforce simp: list_ex_iff n_def)
  qed
  have req: "required_procs ps = comm_size (gcomm self)"
    using tot by (simp add: required_procs_sum ps_def)
  have loop': "set_comm_loop (map fst ps) flags setComm None self1 =
           (Inr (Some (Some mc, Some ((replicate (nMembers p) False)[m := True]), Some m)), self2)"
    using loop by (simp add: self2_def p2 mc)
  have res: "createCommunicators self =
      (Inr (mc, setComm, flags', (replicate (nMembers p) False)[m := True], m),
       self2\<lparr>setFlags := Some flags',
             pSetRoot := Some (fold (\<lambda>(key, p) rt. AList.update key (cum ! setID p) rt)
                                 (pSet self2) [])\<rparr>)"
    unfolding createCommunicators_def Let_def ps_def [symmetric] n_def [symmetric]
      cum_def [symmetric] rank_def [symmetric]
    by (simp add: req noidx skl mkey colour setComm_def [symmetric] self1_def [symmetric]
        loop' flags'_def [symmetric])
  show ?thesis
    apply (rule exI [of _ k], rule exI [of _ m], rule exI [of _ mc], rule exI [of _ setComm],
        rule exI [of _ flags'], rule exI [of _ "snd (createCommunicators self)"])
    using k m res ftrue srank
    by (simp add: ps_def [symmetric] n_def [symmetric] p_def [symmetric] sizes_def [symmetric]
        rank_def [symmetric] name_def [symmetric])
qed

subsection \<open>Every rank has one set and one member\<close>

lemma addProcessorSet_inv:
  assumes wf: "wf_pSet (pSet self)"
      and fresh: "name \<notin> fst ` set (pSet self)" "name \<notin> set (dummyPSet self)"
      and dis: "set (dummyPSet self) \<inter> fst ` set (pSet self) = {}"
      and ok: "addProcessorSet name n sizes self = (Inr (), self')"
  shows "wf_pSet (pSet self') \<and> set (dummyPSet self') \<inter> fst ` set (pSet self') = {} \<and>
         fst ` set (pSet self') \<union> set (dummyPSet self')
           = insert name (fst ` set (pSet self) \<union> set (dummyPSet self)) \<and>
         gcomm self' = gcomm self"
proof (cases "n = 0")
  case True
  then have "self' = self\<lparr>dummyPSet := List.insert name (dummyPSet self)\<rparr>"
    using ok by (simp add: addProcessorSet_def)
  then show ?thesis using wf fresh dis by auto
next
  case False
  define ms where "ms = (if length (atleast_1d sizes) = 1 then replicate n (atleast_1d sizes ! 0)
                         else atleast_1d sizes)"
  have len: "length ms = n"
    using ok False by (auto simp: ms_def addProcessorSet_def Let_def split: if_splits)
  have "self' = self\<lparr>pSet := AList.update name
             (new_procSet name n ms (length (pSet self))) (pSet self)\<rparr>"
    using ok False by (auto simp: ms_def addProcessorSet_def Let_def split: if_splits)
  then have s': "self' = self\<lparr>pSet := pSet self @
             [(name, new_procSet name n ms (length (pSet self)))]\<rparr>"
    using fresh by (simp add: update_fresh)
  have "wf_pSet (pSet self')"
    unfolding s' using wf fresh len by (simp add: wf_pSet_snoc new_procSet_def)
  then show ?thesis using fresh dis by (auto simp: s')
qed

lemma addProcessorSets_inv:
  assumes "wf_pSet (pSet self)"
      and "set (dummyPSet self) \<inter> fst ` set (pSet self) = {}"
      and "distinct (map fst specs)"
      and "fst ` set specs \<inter> (fst ` set (pSet self) \<union> set (dummyPSet self)) = {}"
      and "addProcessorSets specs self = (Inr (), self')"
  shows "wf_pSet (pSet self') \<and> set (dummyPSet self') \<inter> fst ` set (pSet self') = {} \<and>
         gcomm self' = gcomm self"
  using assms
proof (induction specs arbitrary: self)
  case Nil
  then show ?case by simp
next
  case (Cons spec specs)
  obtain name n sizes where spec: "spec = (name, n, sizes)" by (cases spec)
  obtain res self1 where a: "addProcessorSet name n sizes self = (res, self1)"
    by (cases "addProcessorSet name n sizes self")
  with Cons.prems(5) have res: "res = Inr ()" and rest: "addProcessorSets specs self1 = (Inr (), self')"
    by (auto simp: spec split: sum.splits)
  have fresh: "name \<notin> fst ` set (pSet self)" "name \<notin> set (dummyPSet self)"
    using Cons.prems(4) by (auto simp: spec)
  from addProcessorSet_inv [OF Cons.prems(1) fresh Cons.prems(2) a [unfolded res]]
  have inv1: "wf_pSet (pSet self1)" "set (dummyPSet self1) \<inter> fst ` set (pSet self1) = {}"
    "fst ` set (pSet self1) \<union> set (dummyPSet self1)
       = insert name (fst ` set (pSet self) \<union> set (dummyPSet self))"
    "gcomm self1 = gcomm self"
    by simp_all
  have d: "distinct (map fst specs)" and nn: "name \<notin> fst ` set specs"
    using Cons.prems(3) by (simp_all add: spec)
  have "fst ` set specs \<inter> (fst ` set (pSet self1) \<union> set (dummyPSet self1)) = {}"
    unfolding inv1(3) using Cons.prems(4) nn by auto
  from Cons.IH [OF inv1(1) inv1(2) d this rest] inv1(4) show ?case by simp
qed

text \<open>
  Claim C1. Let the processor sets be declared by a list of \<^verbatim>\<open>addProcessorSet\<close> calls with
  distinct set names, and let their sizes add up to the size \<open>N\<close> of the global communicator.
  Then for every rank below \<open>N\<close> \<^verbatim>\<open>createCommunicators\<close> returns, and in what it returns
  exactly one set name has its \<^verbatim>\<open>setFlags\<close> entry true, exactly one index of \<^verbatim>\<open>groupFlags\<close> is
  true, and that index is the returned \<^verbatim>\<open>ptID\<close>. The set is the one whose interval of the
  cumulative sums of the set sizes holds the rank, and the member is the one whose interval of
  the cumulative sums of the member sizes holds the rank counted from the start of the set.
\<close>

theorem createCommunicators_partition:
  assumes "addProcessorSets specs (new_multiPointSparse g) = (Inr (), self)"
      and "distinct (map fst specs)"
      and "sum_list (map (\<lambda>kp. nProc (snd kp)) (pSet self)) = comm_size g"
      and "comm_rank g < comm_size g"
  shows "\<exists>comm setComm flags gf ptID self'.
           createCommunicators self = (Inr (comm, setComm, flags, gf, ptID), self') \<and>
           setFlags self' = Some flags \<and>
           (\<exists>!name. map_of flags name = Some True) \<and>
           (\<exists>!i. i < length gf \<and> gf ! i) \<and>
           ptID < length gf \<and> gf ! ptID \<and>
           (\<exists>k<length (pSet self).
              map_of flags (fst (pSet self ! k)) = Some True \<and>
              length gf = nMembers (snd (pSet self ! k)) \<and>
              sum_list (take k (map (\<lambda>kp. nProc (snd kp)) (pSet self))) \<le> comm_rank g \<and>
              comm_rank g < sum_list (take (Suc k) (map (\<lambda>kp. nProc (snd kp)) (pSet self))) \<and>
              sum_list (take ptID (memberSizes (snd (pSet self ! k))))
                \<le> comm_rank g - sum_list (take k (map (\<lambda>kp. nProc (snd kp)) (pSet self))) \<and>
              comm_rank g - sum_list (take k (map (\<lambda>kp. nProc (snd kp)) (pSet self)))
                < sum_list (take (Suc ptID) (memberSizes (snd (pSet self ! k)))))"
proof -
  have init: "wf_pSet (pSet (new_multiPointSparse g))"
    "set (dummyPSet (new_multiPointSparse g)) \<inter> fst ` set (pSet (new_multiPointSparse g)) = {}"
    "fst ` set specs \<inter> (fst ` set (pSet (new_multiPointSparse g))
        \<union> set (dummyPSet (new_multiPointSparse g))) = {}"
    "gcomm (new_multiPointSparse g) = g"
    by (simp_all add: new_multiPointSparse_def wf_pSet_Nil)
  from addProcessorSets_inv [OF init(1) init(2) assms(2) init(3) assms(1)] init(4)
  have wf: "wf_pSet (pSet self)" and dis: "set (dummyPSet self) \<inter> fst ` set (pSet self) = {}"
    and g: "gcomm self = g" by simp_all
  from createCommunicators_wf [OF wf dis] assms(3,4) g
  obtain k m comm setComm flags self' where
    k: "k < length (pSet self)" and m: "m < nMembers (snd (pSet self ! k))"
    and res: "createCommunicators self =
        (Inr (comm, setComm, flags,
              (replicate (nMembers (snd (pSet self ! k))) False)[m := True], m), self')"
    and sf: "setFlags self' = Some flags"
    and fl: "\<And>name. map_of flags name = Some True \<longleftrightarrow> name = fst (pSet self ! k)"
    and iv: "sum_list (take k (map (\<lambda>kp. nProc (snd kp)) (pSet self))) \<le> comm_rank g"
      "comm_rank g < sum_list (take (Suc k) (map (\<lambda>kp. nProc (snd kp)) (pSet self)))"
      "sum_list (take m (memberSizes (snd (pSet self ! k))))
        \<le> comm_rank g - sum_list (take k (map (\<lambda>kp. nProc (snd kp)) (pSet self)))"
      "comm_rank g - sum_list (take k (map (\<lambda>kp. nProc (snd kp)) (pSet self)))
        < sum_list (take (Suc m) (memberSizes (snd (pSet self ! k))))"
    by auto
  let ?gf = "(replicate (nMembers (snd (pSet self ! k))) False)[m := True]"
  have one_name: "\<exists>!name. map_of flags name = Some True"
    using fl by auto
  have gfi: "i < length ?gf \<and> ?gf ! i \<longleftrightarrow> i = m" for i
    using m by (auto simp: nth_list_update)
  then have one_member: "\<exists>!i. i < length ?gf \<and> ?gf ! i"
    by auto
  show ?thesis
    apply (rule exI [of _ comm], rule exI [of _ setComm], rule exI [of _ flags],
        rule exI [of _ ?gf], rule exI [of _ m], rule exI [of _ self'])
    apply (intro conjI)
    subgoal using res by simp
    subgoal using sf by simp
    subgoal using one_name .
    subgoal using one_member .
    subgoal using m by simp
    subgoal using m by simp
    subgoal using k fl iv by (intro exI [of _ k]) simp
    done
qed

lemma addProcessorSets_example:
  "addProcessorSets [(''cruise'', 3, Scalar 2), (''off'', 0, Scalar 5), (''maneuver'', 2, Seq [1, 3])]
       (new_multiPointSparse \<lparr>comm_rank = 7, comm_size = 10\<rparr>) =
     (Inr (),
      (new_multiPointSparse \<lparr>comm_rank = 7, comm_size = 10\<rparr>)
        \<lparr>pSet := [(''cruise'', new_procSet ''cruise'' 3 [2, 2, 2] 0),
                  (''maneuver'', new_procSet ''maneuver'' 2 [1, 3] 1)],
         dummyPSet := [''off'']\<rparr>)"
  by (simp add: addProcessorSet_def new_multiPointSparse_def numeral_3_eq_3)

theorem createCommunicators_partition_witness:
  "addProcessorSets [(''cruise'', 3, Scalar 2), (''off'', 0, Scalar 5), (''maneuver'', 2, Seq [1, 3])]
       (new_multiPointSparse \<lparr>comm_rank = 7, comm_size = 10\<rparr>) =
     (Inr (),
      (new_multiPointSparse \<lparr>comm_rank = 7, comm_size = 10\<rparr>)
        \<lparr>pSet := [(''cruise'', new_procSet ''cruise'' 3 [2, 2, 2] 0),
                  (''maneuver'', new_procSet ''maneuver'' 2 [1, 3] 1)],
         dummyPSet := [''off'']\<rparr>)
   \<and> distinct (map fst [(''cruise'', 3::nat, Scalar 2), (''off'', 0, Scalar 5),
                        (''maneuver'', 2, Seq [1, 3])])
   \<and> sum_list (map (\<lambda>kp. nProc (snd kp))
        [(''cruise'', new_procSet ''cruise'' 3 [2, 2, 2] 0),
         (''maneuver'', new_procSet ''maneuver'' 2 [1, 3] 1)]) = 10
   \<and> (7::nat) < 10
   \<and> (\<exists>comm setComm flags gf ptID self'.
         createCommunicators
           ((new_multiPointSparse \<lparr>comm_rank = 7, comm_size = 10\<rparr>)
              \<lparr>pSet := [(''cruise'', new_procSet ''cruise'' 3 [2, 2, 2] 0),
                        (''maneuver'', new_procSet ''maneuver'' 2 [1, 3] 1)],
               dummyPSet := [''off'']\<rparr>)
           = (Inr (comm, setComm, flags, gf, ptID), self') \<and>
         (\<exists>!name. map_of flags name = Some True) \<and>
         (\<exists>!i. i < length gf \<and> gf ! i) \<and> ptID < length gf \<and> gf ! ptID)"
proof -
  let ?g = "\<lparr>comm_rank = 7, comm_size = 10\<rparr>"
  let ?self = "(new_multiPointSparse ?g)
        \<lparr>pSet := [(''cruise'', new_procSet ''cruise'' 3 [2, 2, 2] 0),
                  (''maneuver'', new_procSet ''maneuver'' 2 [1, 3] 1)],
         dummyPSet := [''off'']\<rparr>"
  have h2: "distinct (map fst [(''cruise'', 3::nat, Scalar 2), (''off'', 0, Scalar 5),
                        (''maneuver'', 2, Seq [1, 3])])" by simp
  have h3: "sum_list (map (\<lambda>kp. nProc (snd kp)) (pSet ?self)) = comm_size ?g"
    by (simp add: new_procSet_def)
  have h4: "comm_rank ?g < comm_size ?g" by simp
  from createCommunicators_partition [OF addProcessorSets_example h2 h3 h4]
  have c: "\<exists>comm setComm flags gf ptID self'.
         createCommunicators ?self = (Inr (comm, setComm, flags, gf, ptID), self') \<and>
         (\<exists>!name. map_of flags name = Some True) \<and>
         (\<exists>!i. i < length gf \<and> gf ! i) \<and> ptID < length gf \<and> gf ! ptID"
    by (elim exE conjE, intro exI conjI) assumption+
  have s3: "sum_list (map (\<lambda>kp. nProc (snd kp))
        [(''cruise'', new_procSet ''cruise'' 3 [2, 2, 2] 0),
         (''maneuver'', new_procSet ''maneuver'' 2 [1, 3] 1)]) = 10"
    by (simp add: new_procSet_def)
  have s4: "(7::nat) < 10" by simp
  show ?thesis by (intro conjI addProcessorSets_example h2 s3 s4 c)
qed

subsection \<open>Errors of the set-up calls\<close>

text \<open>
  Claim C9. A call of \<^verbatim>\<open>addProcessorSet\<close> with at least one member and a \<^verbatim>\<open>memberSizes\<close>
  sequence whose length is neither 1 nor \<^verbatim>\<open>nMembers\<close> raises the length-mismatch
  \<^verbatim>\<open>MPError\<close>, and the object is left as it was: the sequence is neither cut nor padded and
  no processor set is registered.
\<close>

theorem addProcessorSet_length_mismatch:
  assumes "1 \<le> n" and "length (atleast_1d sizes) \<noteq> 1" and "length (atleast_1d sizes) \<noteq> n"
  shows "addProcessorSet name n sizes self =
           (Inl (MPError ''The suppliled memberSizes list is not      the correct length.''), self)"
  using assms by (simp add: addProcessorSet_def memberSizes_message_def Let_def)

theorem addProcessorSet_length_mismatch_witness:
  "addProcessorSet ''maneuver'' 3 (Seq [10, 20])
       (new_multiPointSparse \<lparr>comm_rank = 0, comm_size = 30\<rparr>) =
     (Inl (MPError ''The suppliled memberSizes list is not      the correct length.''),
      new_multiPointSparse \<lparr>comm_rank = 0, comm_size = 30\<rparr>)
   \<and> pSet (snd (addProcessorSet ''maneuver'' 3 (Seq [10, 20])
        (new_multiPointSparse \<lparr>comm_rank = 0, comm_size = 30\<rparr>))) = []"
  using addProcessorSet_length_mismatch [of 3 "Seq [10, 20]" "''maneuver''"
      "new_multiPointSparse \<lparr>comm_rank = 0, comm_size = 30\<rparr>"]
  by (simp add: new_multiPointSparse_def)




section \<open>Properties of the numbers\<close>

lemma pow2_powi: "pow2 e = 2 powi e"
  by (simp add: pow2_def power_int_def power_one_over inverse_eq_divide)

lemma pow2_pos [simp]: "0 < pow2 e"
  by (simp add: pow2_powi)

lemma pow2_nonzero [simp]: "pow2 e \<noteq> 0"
  by (simp add: pow2_powi)

lemma pow2_add: "pow2 (a + b) = pow2 a * pow2 b"
  by (simp add: pow2_powi power_int_add)

lemma pow2_mono: "a \<le> b \<Longrightarrow> pow2 a \<le> pow2 b"
  by (simp add: pow2_powi power_int_increasing)

lemma pow2_strict_mono: "a < b \<Longrightarrow> pow2 a < pow2 b"
  by (simp add: pow2_powi power_int_strict_increasing)

lemma pow2_less_cancel: "pow2 a < pow2 b \<Longrightarrow> a < b"
  using pow2_mono [of b a] by (cases "a < b") auto

lemma pow2_nat: "0 \<le> e \<Longrightarrow> pow2 e = 2 ^ nat e"
  by (simp add: pow2_def)

lemma of_int_bitlen_bounds:
  assumes "0 < p"
  shows "pow2 (bitlen p - 1) \<le> of_int p" and "(of_int p :: rat) < pow2 (bitlen p)"
proof -
  from bitlen_bounds [OF assms] have b: "2 ^ nat (bitlen p - 1) \<le> p" "p < 2 ^ nat (bitlen p)"
    by simp_all
  have ge: "1 \<le> bitlen p" using assms by (auto simp: bitlen_alt_def)
  have "(of_int (2 ^ nat (bitlen p - 1)) :: rat) \<le> of_int p"
    using b(1) by (simp only: of_int_le_iff)
  then show "pow2 (bitlen p - 1) \<le> of_int p" using ge by (simp add: pow2_nat)
  have "(of_int p :: rat) < of_int (2 ^ nat (bitlen p))"
    using b(2) by (simp only: of_int_less_iff)
  then show "(of_int p :: rat) < pow2 (bitlen p)" using ge by (simp add: pow2_nat)
qed

lemma ilog2_bounds:
  assumes "0 < x"
  shows "pow2 (ilog2 x) \<le> x \<and> x < pow2 (ilog2 x + 1)"
proof -
  obtain p q where pq: "quotient_of x = (p, q)" by (cases "quotient_of x")
  then have q: "0 < q" and x: "x = of_int p / of_int q"
    using quotient_of_denom_pos quotient_of_div by blast+
  have p: "0 < p" using assms q x by (simp add: zero_less_divide_iff)
  define d where "d = bitlen p - bitlen q"
  note bp = of_int_bitlen_bounds [OF p] and bq = of_int_bitlen_bounds [OF q]
  have qpos: "(0::rat) < of_int q" using q by simp
  have lo: "pow2 (d - 1) < x"
  proof -
    have "pow2 (d - 1) * of_int q < pow2 (d - 1) * pow2 (bitlen q)"
      using bq(2) by simp
    also have "\<dots> = pow2 (bitlen p - 1)"
      by (simp add: pow2_add [symmetric] d_def)
    also have "\<dots> \<le> of_int p" by (rule bp(1))
    finally show ?thesis using qpos by (simp add: x pos_less_divide_eq)
  qed
  have hi: "x < pow2 (d + 1)"
  proof -
    have "of_int p < pow2 (bitlen p)" by (rule bp(2))
    also have "\<dots> = pow2 (d + 1) * pow2 (bitlen q - 1)"
      by (simp add: pow2_add [symmetric] d_def)
    also have "\<dots> \<le> pow2 (d + 1) * of_int q"
      using bq(1) by simp
    finally show ?thesis using qpos by (simp add: x pos_divide_less_eq)
  qed
  have il: "ilog2 x = (if pow2 d \<le> x then d else d - 1)"
    by (simp add: ilog2_def pq d_def Let_def)
  show ?thesis using lo hi by (auto simp: il)
qed

lemma ilog2_unique:
  assumes "0 < x" and "pow2 e \<le> x" and "x < pow2 (e + 1)"
  shows "ilog2 x = e"
proof -
  from ilog2_bounds [OF assms(1)] have b: "pow2 (ilog2 x) \<le> x" "x < pow2 (ilog2 x + 1)"
    by simp_all
  have "pow2 e < pow2 (ilog2 x + 1)" using assms(2) b(2) by simp
  then have 1: "e < ilog2 x + 1" by (rule pow2_less_cancel)
  have "pow2 (ilog2 x) < pow2 (e + 1)" using assms(3) b(1) by simp
  then have 2: "ilog2 x < e + 1" by (rule pow2_less_cancel)
  from 1 2 show ?thesis by simp
qed

lemma round_even_near:
  assumes "\<bar>y - of_int n\<bar> < 1 / 2"
  shows "round_even y = n"
proof (cases "of_int n \<le> y")
  case True
  then have "\<lfloor>y\<rfloor> = n" using assms by (intro floor_unique) auto
  then show ?thesis using assms True by (simp add: round_even_def Let_def)
next
  case False
  then have f: "\<lfloor>y\<rfloor> = n - 1" using assms by (intro floor_unique) auto
  have "1 / 2 < y - of_int (n - 1)" using assms False by auto
  then show ?thesis using f by (simp add: round_even_def Let_def)
qed

lemma fl_round:
  assumes "0 < x" and "pow2 e \<le> x" and "x < pow2 (e + 1)" and "- 1022 \<le> e"
      and "\<bar>x / pow2 (e - 52) - of_int n\<bar> < 1 / 2"
  shows "fl x = of_int n * pow2 (e - 52)"
proof -
  have "ilog2 \<bar>x\<bar> = e" using assms(1-3) by (simp add: ilog2_unique)
  then show ?thesis using assms(1,4)
    by (simp add: fl_def Let_def max_def round_even_near [OF assms(5)])
qed

lemma fl_zero [simp]: "fl 0 = 0"
  by (simp add: fl_def)

lemma flo_zero [simp]: "flo 0 = Inr 0"
  by (simp add: flo_def)

text \<open>A positive number with a significand of 53 bits and an exponent in range is a double.\<close>

lemma flo_exact:
  assumes "0 < x" and "pow2 e \<le> x" and "x < pow2 (e + 1)" and "- 1022 \<le> e" and "e < 1024"
      and "x / pow2 (e - 52) \<in> \<int>"
  shows "flo x = Inr x"
proof -
  from assms(6) obtain n where n: "x / pow2 (e - 52) = of_int n" by (auto elim: Ints_cases)
  then have "\<bar>x / pow2 (e - 52) - of_int n\<bar> < 1 / 2" by simp
  from fl_round [OF assms(1-4) this] have "fl x = of_int n * pow2 (e - 52)" .
  also have "\<dots> = x" using n [symmetric] by simp
  finally have f: "fl x = x" .
  have "ilog2 \<bar>x\<bar> = e" using assms(1-3) by (simp add: ilog2_unique)
  then show ?thesis using assms(5) by (simp add: flo_def f Let_def)
qed

lemma step_h_value: "step_h = 1225996432692711 / 2 ^ 183"
proof -
  have "fl (1 / 10 ^ 40) = of_int 4903985730770844 * pow2 (- 133 - 52)"
    by (rule fl_round) (simp_all add: pow2_def)
  then show ?thesis by (simp add: step_h_def pow2_def)
qed

lemma flo_1: "flo 1 = Inr 1"
  by (rule flo_exact [where e = 0]) (simp_all add: pow2_def)

lemma flo_3: "flo 3 = Inr 3"
  by (rule flo_exact [where e = 1]) (simp_all add: pow2_def)

lemma flo_4: "flo 4 = Inr 4"
  by (rule flo_exact [where e = 2]) (simp_all add: pow2_def)

lemma flo_7: "flo 7 = Inr 7"
  by (rule flo_exact [where e = 2]) (simp_all add: pow2_def)

lemma flo_12: "flo 12 = Inr 12"
  by (rule flo_exact [where e = 3]) (simp_all add: pow2_def)

lemma flo_h: "flo step_h = Inr step_h"
  unfolding step_h_value by (rule flo_exact [where e = "- 133"]) (simp_all add: pow2_def)

lemma flo_3h: "flo (3 * step_h) = Inr (3 * step_h)"
  unfolding step_h_value by (rule flo_exact [where e = "- 132"]) (simp_all add: pow2_def)

lemma flo_4h: "flo (4 * step_h) = Inr (4 * step_h)"
  unfolding step_h_value by (rule flo_exact [where e = "- 131"]) (simp_all add: pow2_def)

end
